theory Spec2Isabelle
  imports Complex_Main
begin

section \<open>Values, exceptions and dictionaries\<close>

text \<open>
  JSON-serialisable Python values. A \<open>dict\<close> is an association list in insertion
  order, read through \<open>map_of\<close>. \<open>JFloat\<close> carries the exact quotient of a true
  division; the rounding to a binary float is not modelled.
\<close>

datatype json =
    JNull
  | JBool bool
  | JInt int
  | JFloat rat
  | JStr string
  | JList "json list"
  | JObj "(string \<times> json) list"

text \<open>
  A raised Python exception: the name of its class, the names of the classes it
  derives from, and \<open>str(e)\<close>. Every value of this type is an instance of
  \<open>Exception\<close>, so \<open>except Exception\<close> catches all of them; signals deriving from
  \<open>BaseException\<close> only (\<open>KeyboardInterrupt\<close>, \<open>SystemExit\<close>) are outside the model.
\<close>

datatype exn = Exn (cls: string) (supers: "string list") (msg: string)

definition isinstance :: "exn \<Rightarrow> string \<Rightarrow> bool" where
  "isinstance e c = (cls e = c \<or> c \<in> set (supers e))"

definition TypeError :: "string \<Rightarrow> exn" where
  "TypeError m = Exn ''TypeError'' [''Exception''] m"

text \<open>\<open>repr\<close> of a string without quotes or escapes in it; \<open>str\<close> of a \<open>KeyError\<close> is the
  \<open>repr\<close> of the missing key.\<close>

definition quoted :: "string \<Rightarrow> string" where
  "quoted s = [CHR 0x27] @ s @ [CHR 0x27]"

definition KeyError :: "string \<Rightarrow> exn" where
  "KeyError k = Exn ''KeyError'' [''LookupError'', ''Exception''] (quoted k)"

definition ValueError :: "string \<Rightarrow> exn" where
  "ValueError m = Exn ''ValueError'' [''Exception''] m"

definition RuntimeError :: "string \<Rightarrow> exn" where
  "RuntimeError m = Exn ''RuntimeError'' [''Exception''] m"

text \<open>\<open>d[k] = v\<close> on a Python dict: an existing key keeps its position and takes the
  new value, a new key goes to the end.\<close>

fun dict_set :: "('k \<times> 'v) list \<Rightarrow> 'k \<Rightarrow> 'v \<Rightarrow> ('k \<times> 'v) list" where
  "dict_set [] k v = [(k, v)]"
| "dict_set ((k', v') # d) k v =
     (if k' = k then (k', v) # d else (k', v') # dict_set d k v)"

section \<open>Pydantic argument models (models.py)\<close>

text \<open>
  One validation failure as \<open>ValidationError.json()\<close> lists it: the error type, the
  key it is located at, the message and the offending input (the documentation
  link of each entry is left out).
\<close>

record violation =
  vtype :: string
  loc :: string
  vmsg :: string
  vinput :: json

text \<open>
  A field of a \<open>BaseModel\<close>: its name, its validation alias (if declared), the
  validator of its annotated type (returning the validated value, or the error type
  and message) and its default (\<open>None\<close> for a required field).
\<close>

record field_info =
  field_name :: string
  field_alias :: "string option"
  validator :: "json \<Rightarrow> (string \<times> string) + json"
  field_default :: "json option"

record model_class =
  populate_by_name :: bool
  model_fields :: "field_info list"

text \<open>
  Where a field's input is taken from: the alias when the field declares one and the
  data has that key; the field's own name when it declares no alias, or when the
  alias key is absent and \<open>populate_by_name\<close> is set. The result is the key used
  and the value found there.
\<close>

definition lookup_field :: "bool \<Rightarrow> field_info \<Rightarrow> (string \<times> json) list \<Rightarrow> (string \<times> json) option" where
  "lookup_field by_name f data =
     (case field_alias f of
        None \<Rightarrow> map_option (Pair (field_name f)) (map_of data (field_name f))
      | Some a \<Rightarrow>
          (case map_of data a of
             Some v \<Rightarrow> Some (a, v)
           | None \<Rightarrow>
               if by_name then map_option (Pair (field_name f)) (map_of data (field_name f))
               else None))"

definition validate_field :: "bool \<Rightarrow> (string \<times> json) list \<Rightarrow> field_info \<Rightarrow> violation + (string \<times> json)" where
  "validate_field by_name data f =
     (case lookup_field by_name f data of
        None \<Rightarrow>
          (case field_default f of
             None \<Rightarrow>
               Inl \<lparr>vtype = ''missing'',
                    loc = (case field_alias f of None \<Rightarrow> field_name f | Some a \<Rightarrow> a),
                    vmsg = ''Field required'', vinput = JObj data\<rparr>
           | Some d \<Rightarrow> Inr (field_name f, d))
      | Some (k, v) \<Rightarrow>
          (case validator f v of
             Inl (t, m) \<Rightarrow> Inl \<lparr>vtype = t, loc = k, vmsg = m, vinput = v\<rparr>
           | Inr w \<Rightarrow> Inr (field_name f, w)))"

fun lefts :: "('a + 'b) list \<Rightarrow> 'a list" where
  "lefts [] = []"
| "lefts (Inl a # xs) = a # lefts xs"
| "lefts (Inr b # xs) = lefts xs"

fun rights :: "('a + 'b) list \<Rightarrow> 'b list" where
  "rights [] = []"
| "rights (Inl a # xs) = rights xs"
| "rights (Inr b # xs) = b # rights xs"

text \<open>
  \<open>Model(**data)\<close>: every field is validated, the failures of all fields are
  collected, and any failure raises \<open>ValidationError\<close> with the whole list. Keys of
  the data that no field reads are ignored (the models declare no \<open>extra\<close> policy).
\<close>

definition model_validate :: "model_class \<Rightarrow> (string \<times> json) list \<Rightarrow> violation list + (string \<times> json) list" where
  "model_validate m data =
     (let results = map (validate_field (populate_by_name m) data) (model_fields m)
      in if lefts results \<noteq> [] then Inl (lefts results) else Inr (rights results))"

text \<open>\<open>model_dump(exclude_none=True)\<close>: the fields by name, those holding \<open>None\<close> left out.\<close>

definition model_dump :: "(string \<times> json) list \<Rightarrow> (string \<times> json) list" where
  "model_dump parsed = filter (\<lambda>(k, v). v \<noteq> JNull) parsed"

definition violation_json :: "violation \<Rightarrow> json" where
  "violation_json e =
     JObj [(''type'', JStr (vtype e)), (''loc'', JList [JStr (loc e)]),
           (''msg'', JStr (vmsg e)), (''input'', vinput e)]"

text \<open>
  Validators of the annotations that \<open>BackupArgs\<close> and \<open>InsertArgs\<close> use, as pydantic
  applies them in a plain \<open>BaseModel\<close> (no model sets \<open>strict\<close>) to values that came
  from JSON. A \<open>str\<close> field takes a string and nothing else, a \<open>Dict\<close> field a
  dictionary and a \<open>List\<close> field a list. An \<open>int\<close> field also takes a boolean, a float
  without fractional part and a string that spells an integer, and hands on the
  integer.
\<close>

definition str_type :: "json \<Rightarrow> (string \<times> string) + json" where
  "str_type v = (case v of JStr s \<Rightarrow> Inr v | _ \<Rightarrow> Inl (''string_type'', ''Input should be a valid string''))"

definition dict_type :: "json \<Rightarrow> (string \<times> string) + json" where
  "dict_type v = (case v of JObj d \<Rightarrow> Inr v | _ \<Rightarrow> Inl (''dict_type'', ''Input should be a valid dictionary''))"

text \<open>
  A string read as an integer, the way pydantic does it for an \<open>int\<close> field: the blanks
  around it are dropped; what is left is an optional sign, then decimal digits, in
  which single underscores may stand between digits, then optionally a point followed
  by zeros only.
\<close>

definition is_space :: "char \<Rightarrow> bool" where
  "is_space c = ((of_char c :: nat) \<in> {9, 10, 11, 12, 13, 32})"

definition is_digit :: "char \<Rightarrow> bool" where
  "is_digit c = (48 \<le> (of_char c :: nat) \<and> (of_char c :: nat) \<le> 57)"

fun int_literal :: "string \<Rightarrow> bool" where
  "int_literal [] = False"
| "int_literal [c] = is_digit c"
| "int_literal (c # d # r) =
     (is_digit c \<and> (if d = CHR ''_'' then int_literal r else int_literal (d # r)))"

definition digits_value :: "string \<Rightarrow> int" where
  "digits_value ds = foldl (\<lambda>n c. 10 * n + (int (of_char c) - 48)) 0 ds"

definition str_as_int :: "string \<Rightarrow> int option" where
  "str_as_int s =
     (let t = rev (dropWhile is_space (rev (dropWhile is_space s)));
          u = (if take 1 t = ''-'' \<or> take 1 t = ''+'' then drop 1 t else t);
          whole = takeWhile (\<lambda>c. c \<noteq> CHR ''.'') u;
          decimals = drop (Suc (length whole)) u
      in if int_literal whole \<and> list_all (\<lambda>c. c = CHR ''0'') decimals
         then Some ((if take 1 t = ''-'' then - 1 else 1) * digits_value (filter is_digit whole))
         else None)"

text \<open>\<open>str\<close> of an integer, for the message that names the bound of a field.\<close>

function decimal :: "nat \<Rightarrow> string" where
  "decimal n = (if n < 10 then [''0123456789'' ! n] else decimal (n div 10) @ [''0123456789'' ! (n mod 10)])"
  by pat_completeness auto
termination
  by (relation "measure id") auto

declare decimal.simps [simp del]

definition str_of_int :: "int \<Rightarrow> string" where
  "str_of_int i = (if i < 0 then ''-'' @ decimal (nat (- i)) else decimal (nat i))"

definition int_type :: "json \<Rightarrow> (string \<times> string) + int" where
  "int_type v =
     (case v of
        JInt i \<Rightarrow> Inr i
      | JBool b \<Rightarrow> Inr (if b then 1 else 0)
      | JFloat q \<Rightarrow>
          if q = of_int \<lfloor>q\<rfloor> then Inr \<lfloor>q\<rfloor>
          else Inl (''int_from_float'', ''Input should be a valid integer, got a number with a fractional part'')
      | JStr s \<Rightarrow>
          (case str_as_int s of
             Some i \<Rightarrow> Inr i
           | None \<Rightarrow> Inl (''int_parsing'', ''Input should be a valid integer, unable to parse string as an integer''))
      | _ \<Rightarrow> Inl (''int_type'', ''Input should be a valid integer''))"

text \<open>An \<open>int\<close> field declared with \<open>ge=lo\<close>: the bound is checked on the integer read.\<close>

definition int_ge :: "int \<Rightarrow> json \<Rightarrow> (string \<times> string) + json" where
  "int_ge lo v =
     (case int_type v of
        Inl e \<Rightarrow> Inl e
      | Inr i \<Rightarrow>
          if lo \<le> i then Inr (JInt i)
          else Inl (''greater_than_equal'', ''Input should be greater than or equal to '' @ str_of_int lo))"

text \<open>
  A list is validated item by item. Of the failures of its items the first is kept,
  located at the field; pydantic lists each of them, located at the field and the
  index of the item.
\<close>

definition list_of :: "(json \<Rightarrow> (string \<times> string) + json) \<Rightarrow> json \<Rightarrow> (string \<times> string) + json" where
  "list_of item v =
     (case v of
        JList xs \<Rightarrow>
          (case lefts (map item xs) of
             [] \<Rightarrow> Inr (JList (rights (map item xs)))
           | e # _ \<Rightarrow> Inl e)
      | _ \<Rightarrow> Inl (''list_type'', ''Input should be a valid list''))"

definition optional :: "(json \<Rightarrow> (string \<times> string) + json) \<Rightarrow> json \<Rightarrow> (string \<times> string) + json" where
  "optional inner v = (if v = JNull then Inr JNull else inner v)"

definition InsertArgs :: model_class where
  "InsertArgs =
     \<lparr>populate_by_name = False,
      model_fields =
        [\<lparr>field_name = ''collection'', field_alias = None, validator = str_type, field_default = None\<rparr>,
         \<lparr>field_name = ''document'', field_alias = None, validator = dict_type, field_default = None\<rparr>]\<rparr>"

definition BackupArgs :: model_class where
  "BackupArgs =
     \<lparr>populate_by_name = True,
      model_fields =
        [\<lparr>field_name = ''output_dir'', field_alias = Some ''outputDir'',
          validator = optional str_type, field_default = Some JNull\<rparr>,
         \<lparr>field_name = ''collection'', field_alias = None,
          validator = optional str_type, field_default = Some JNull\<rparr>,
         \<lparr>field_name = ''collections'', field_alias = None,
          validator = optional (list_of str_type), field_default = Some JNull\<rparr>,
         \<lparr>field_name = ''doc_limit'', field_alias = Some ''docLimit'',
          validator = optional (int_ge 1), field_default = Some JNull\<rparr>]\<rparr>"

section \<open>Handlers and the error decorator (handlers.py)\<close>

text \<open>
  The two shapes in which a handler is called: \<open>handler(db, **kwargs)\<close>, which for
  an empty mapping is the plain call \<open>handler(db)\<close>, and \<open>handler(db, args)\<close>.
\<close>

datatype call_shape = Kwargs "(string \<times> json) list" | Positional json

type_synonym handle = nat

text \<open>
  A Python callable. Calling it first binds the arguments to its parameters:
  \<open>binding\<close> gives the message of the \<open>TypeError\<close> the interpreter raises when the
  call shape does not fit the signature, \<open>None\<close> when it fits. Only then the body
  runs, and returns a value or raises.
\<close>

record callable =
  binding :: "call_shape \<Rightarrow> string option"
  body :: "handle \<Rightarrow> call_shape \<Rightarrow> exn + json"

definition call :: "callable \<Rightarrow> handle \<Rightarrow> call_shape \<Rightarrow> exn + json" where
  "call f h shape =
     (case binding f shape of
        Some m \<Rightarrow> Inl (TypeError m)
      | None \<Rightarrow> body f h shape)"

text \<open>
  The decorator \<open>handle_errors(func)\<close>. Its \<open>wrapper(db, args=None)\<close> accepts the
  positional call and a keyword call whose only keyword is \<open>args\<close>; it calls
  \<open>func(db)\<close> when \<open>args\<close> is \<open>None\<close> and \<open>func(db, args)\<close> otherwise, and turns the
  exception of \<open>func\<close> into an error dictionary.
\<close>

definition wrapper_args :: "call_shape \<Rightarrow> json" where
  "wrapper_args shape =
     (case shape of
        Positional a \<Rightarrow> a
      | Kwargs kw \<Rightarrow> (case map_of kw ''args'' of None \<Rightarrow> JNull | Some a \<Rightarrow> a))"

definition error_result :: "exn \<Rightarrow> json" where
  "error_result e =
     (if isinstance e ''KeyError''
      then JObj [(''error'', JStr (''Missing required parameter: '' @ msg e)), (''type'', JStr ''KeyError'')]
      else if isinstance e ''ArangoError''
      then JObj [(''error'', JStr (''Database operation failed: '' @ msg e)), (''type'', JStr ''ArangoError'')]
      else JObj [(''error'', JStr (''Operation failed: '' @ msg e)), (''type'', JStr (cls e))])"

definition handle_errors :: "callable \<Rightarrow> callable" where
  "handle_errors func =
     \<lparr>binding = (\<lambda>shape.
        case shape of
          Positional a \<Rightarrow> None
        | Kwargs kw \<Rightarrow>
            if list_all (\<lambda>k. k = ''args'') (map fst kw) then None
            else Some ''wrapper() got an unexpected keyword argument''),
      body = (\<lambda>h shape.
        case (if wrapper_args shape = JNull then call func h (Kwargs [])
              else call func h (Positional (wrapper_args shape))) of
          Inr r \<Rightarrow> Inr r
        | Inl e \<Rightarrow> Inr (error_result e))\<rparr>"

section \<open>The tool registry and the server (entry.py)\<close>

record ToolRegistration =
  name :: string
  description :: string
  model :: model_class
  handler :: callable

text \<open>
  The registry is used through \<open>TOOL_REGISTRY[k] = v\<close>, \<open>.get\<close>, \<open>.values()\<close>, its
  truth value and \<open>len\<close>: a dictionary from tool name to registration.
\<close>

type_synonym registry = "(string \<times> ToolRegistration) list"

text \<open>A run of statements \<open>TOOL_REGISTRY[K] = ToolRegistration(name=K, ...)\<close>.\<close>

fun populate :: "registry \<Rightarrow> ToolRegistration list \<Rightarrow> registry" where
  "populate r [] = r"
| "populate r (t # ts) = populate (dict_set r (name t) t) ts"

text \<open>
  The module-level statements of entry.py (lines 156 to 388) register these 33
  tools, in this order. The name constants belong to the module \<open>tools\<close>, which is not
  among the sources: they are a parameter, and so are the descriptions, the models
  and the handlers.
\<close>

datatype tool_id =
    ARANGO_QUERY | ARANGO_LIST_COLLECTIONS | ARANGO_INSERT | ARANGO_UPDATE
  | ARANGO_REMOVE | ARANGO_CREATE_COLLECTION | ARANGO_BACKUP | ARANGO_LIST_INDEXES
  | ARANGO_CREATE_INDEX | ARANGO_DELETE_INDEX | ARANGO_EXPLAIN_QUERY
  | ARANGO_VALIDATE_REFERENCES | ARANGO_INSERT_WITH_VALIDATION | ARANGO_BULK_INSERT
  | ARANGO_BULK_UPDATE | ARANGO_CREATE_GRAPH | ARANGO_ADD_EDGE | ARANGO_TRAVERSE
  | ARANGO_SHORTEST_PATH | ARANGO_LIST_GRAPHS | ARANGO_ADD_VERTEX_COLLECTION
  | ARANGO_ADD_EDGE_DEFINITION | ARANGO_GRAPH_TRAVERSAL | ARANGO_ADD_VERTEX
  | ARANGO_CREATE_SCHEMA | ARANGO_VALIDATE_DOCUMENT | ARANGO_QUERY_BUILDER
  | ARANGO_QUERY_PROFILE | ARANGO_BACKUP_GRAPH | ARANGO_RESTORE_GRAPH
  | ARANGO_BACKUP_NAMED_GRAPHS | ARANGO_VALIDATE_GRAPH_INTEGRITY | ARANGO_GRAPH_STATISTICS

definition registration_order :: "tool_id list" where
  "registration_order =
     [ARANGO_QUERY, ARANGO_LIST_COLLECTIONS, ARANGO_INSERT, ARANGO_UPDATE,
      ARANGO_REMOVE, ARANGO_CREATE_COLLECTION, ARANGO_BACKUP, ARANGO_LIST_INDEXES,
      ARANGO_CREATE_INDEX, ARANGO_DELETE_INDEX, ARANGO_EXPLAIN_QUERY,
      ARANGO_VALIDATE_REFERENCES, ARANGO_INSERT_WITH_VALIDATION, ARANGO_BULK_INSERT,
      ARANGO_BULK_UPDATE, ARANGO_CREATE_GRAPH, ARANGO_ADD_EDGE, ARANGO_TRAVERSE,
      ARANGO_SHORTEST_PATH, ARANGO_LIST_GRAPHS, ARANGO_ADD_VERTEX_COLLECTION,
      ARANGO_ADD_EDGE_DEFINITION, ARANGO_GRAPH_TRAVERSAL, ARANGO_ADD_VERTEX,
      ARANGO_CREATE_SCHEMA, ARANGO_VALIDATE_DOCUMENT, ARANGO_QUERY_BUILDER,
      ARANGO_QUERY_PROFILE, ARANGO_BACKUP_GRAPH, ARANGO_RESTORE_GRAPH,
      ARANGO_BACKUP_NAMED_GRAPHS, ARANGO_VALIDATE_GRAPH_INTEGRITY, ARANGO_GRAPH_STATISTICS]"

definition TOOL_REGISTRY ::
    "(tool_id \<Rightarrow> string) \<Rightarrow> (tool_id \<Rightarrow> string) \<Rightarrow> (tool_id \<Rightarrow> model_class) \<Rightarrow> (tool_id \<Rightarrow> callable) \<Rightarrow> registry" where
  "TOOL_REGISTRY names descriptions models handlers =
     populate []
       (map (\<lambda>t. \<lparr>name = names t, description = descriptions t, model = models t, handler = handlers t\<rparr>)
          registration_order)"

subsection \<open>Startup: \<open>server_lifespan\<close>\<close>

text \<open>
  The outcome of the k-th attempt to connect, counted from 0 over the life of the
  process: the pair \<open>(client, db)\<close> that \<open>get_client_and_db\<close> returns, or the exception
  raised on the way.
\<close>

type_synonym connector = "nat \<Rightarrow> exn + (handle \<times> handle)"

record startup =
  st_client :: "handle option"
  st_db :: "handle option"
  st_calls :: nat
  st_sleeps :: nat

text \<open>
  The loop \<open>for attempt in range(1, max(1, retries) + 1)\<close>, over the attempts that
  are left. A successful connection breaks out; a failure sleeps and goes on while
  \<open>attempt < retries\<close>, and otherwise resets client and db to \<open>None\<close> and breaks out.
\<close>

fun connect_loop :: "connector \<Rightarrow> int \<Rightarrow> int list \<Rightarrow> startup \<Rightarrow> startup" where
  "connect_loop get_client_and_db retries [] s = s"
| "connect_loop get_client_and_db retries (attempt # rest) s =
     (case get_client_and_db (st_calls s) of
        Inr (c, d) \<Rightarrow> s\<lparr>st_client := Some c, st_db := Some d, st_calls := Suc (st_calls s)\<rparr>
      | Inl e \<Rightarrow>
          if attempt < retries
          then connect_loop get_client_and_db retries rest
                 (s\<lparr>st_calls := Suc (st_calls s), st_sleeps := Suc (st_sleeps s)\<rparr>)
          else s\<lparr>st_client := None, st_db := None, st_calls := Suc (st_calls s)\<rparr>)"

definition connect_with_retry :: "connector \<Rightarrow> int \<Rightarrow> startup" where
  "connect_with_retry get_client_and_db retries =
     connect_loop get_client_and_db retries [1..max 1 retries]
       \<lparr>st_client = None, st_db = None, st_calls = 0, st_sleeps = 0\<rparr>"

text \<open>
  \<open>server_lifespan\<close> up to its \<open>yield\<close>, from the point where the configuration and
  the retry settings have been read: it raises \<open>RuntimeError\<close> on an empty registry,
  and otherwise yields the lifespan context \<open>{"db": db, "client": client}\<close>.
\<close>

definition server_lifespan :: "registry \<Rightarrow> connector \<Rightarrow> int \<Rightarrow> exn + (string \<times> handle option) list" where
  "server_lifespan reg get_client_and_db retries =
     (if reg = []
      then Inl (RuntimeError ''Tool registry is empty. No tools have been registered. This indicates a critical initialization error.'')
      else let s = connect_with_retry get_client_and_db retries
           in Inr [(''db'', st_db s), (''client'', st_client s)])"

subsection \<open>Tool listing: \<open>handle_list_tools\<close>\<close>

record tool =
  tool_name :: string
  tool_description :: string
  inputSchema :: model_class

text \<open>The comprehension over \<open>TOOL_REGISTRY.values()\<close>; the JSON schema of a model is
  represented by the model.\<close>

definition registry_tools :: "registry \<Rightarrow> tool list" where
  "registry_tools reg =
     map (\<lambda>(k, r). \<lparr>tool_name = name r, tool_description = description r, inputSchema = model r\<rparr>) reg"

definition handle_list_tools :: "(string \<Rightarrow> string option) \<Rightarrow> registry \<Rightarrow> tool list" where
  "handle_list_tools getenv reg =
     (let tools = registry_tools reg;
          compat = getenv ''MCP_COMPAT_TOOLSET''
      in if compat = Some ''baseline'' \<or>
            (compat = None \<and> (case getenv ''PYTEST_CURRENT_TEST'' of None \<Rightarrow> False | Some s \<Rightarrow> s \<noteq> []))
         then take 7 tools
         else tools)"

subsection \<open>Dispatch: \<open>_invoke_handler\<close> and \<open>call_tool\<close>\<close>

text \<open>
  \<open>_invoke_handler\<close>, returning the outcome together with the calls it made: the
  keyword call first, and the positional call when the first raised a \<open>TypeError\<close>.
\<close>

definition invoke_handler :: "callable \<Rightarrow> handle \<Rightarrow> (string \<times> json) list \<Rightarrow> (exn + json) \<times> call_shape list" where
  "invoke_handler f h args =
     (case call f h (Kwargs args) of
        Inr r \<Rightarrow> (Inr r, [Kwargs args])
      | Inl e \<Rightarrow>
          if isinstance e ''TypeError''
          then (call f h (Positional (JObj args)), [Kwargs args, Positional (JObj args)])
          else (Inl e, [Kwargs args]))"

text \<open>
  The request context object: its \<open>lifespan_context\<close> is \<open>None\<close> or a dictionary
  whose entries \<open>db\<close> and \<open>client\<close> hold a handle or \<open>None\<close>.
\<close>

datatype request_context = RequestContext (lifespan_context: "(string \<times> handle option) list option")

text \<open>
  The state a dispatch reads and writes: the attribute \<open>_safe_request_context\<close> of the
  server (unset, or set to \<open>None\<close> or to a context object), the number of connection
  attempts made so far, and the handler calls made so far.
\<close>

record server_state =
  safe_request_context :: "request_context option option"
  connect_calls :: nat
  invocations :: "(string \<times> call_shape) list"

text \<open>
  The property \<open>server.request_context\<close>: the attribute when it is set, and
  otherwise a new object with an empty lifespan context, made at every read.
\<close>

definition get_request_context :: "server_state \<Rightarrow> request_context option" where
  "get_request_context st =
     (case safe_request_context st of
        None \<Rightarrow> Some (RequestContext (Some []))
      | Some c \<Rightarrow> c)"

text \<open>\<open>ctx.lifespan_context.get("db") if ctx and ctx.lifespan_context else None\<close>\<close>

definition cached_db :: "request_context option \<Rightarrow> handle option" where
  "cached_db ctx =
     (case ctx of
        None \<Rightarrow> None
      | Some c \<Rightarrow>
          (case lifespan_context c of
             None \<Rightarrow> None
           | Some d \<Rightarrow> if d = [] then None else (case map_of d ''db'' of None \<Rightarrow> None | Some h \<Rightarrow> h)))"

text \<open>
  The two assignments under \<open>if ctx and ctx.lifespan_context is not None\<close>. They
  change the dictionary of the context object the server holds; when the attribute is
  unset, the object that was read is not kept and the state stays as it is.
\<close>

definition cache_connection :: "handle \<Rightarrow> handle \<Rightarrow> server_state \<Rightarrow> server_state" where
  "cache_connection client db_conn st =
     (case safe_request_context st of
        Some (Some c) \<Rightarrow>
          (case lifespan_context c of
             Some d \<Rightarrow>
               st\<lparr>safe_request_context :=
                    Some (Some (RequestContext
                      (Some (dict_set (dict_set d ''db'' (Some db_conn)) ''client'' (Some client)))))\<rparr>
           | None \<Rightarrow> st)
      | _ \<Rightarrow> st)"

text \<open>The last block of \<open>call_tool\<close>: invoke the handler, answer with its result or
  with the message of the exception it raised.\<close>

definition dispatch_handler :: "ToolRegistration \<Rightarrow> string \<Rightarrow> handle \<Rightarrow> (string \<times> json) list \<Rightarrow> server_state \<Rightarrow> json \<times> server_state" where
  "dispatch_handler tool_reg nm h validated_args st =
     (case invoke_handler (handler tool_reg) h validated_args of
        (outcome, calls) \<Rightarrow>
          ((case outcome of
              Inr result \<Rightarrow> result
            | Inl e \<Rightarrow> JObj [(''error'', JStr (msg e)), (''tool'', JStr nm)]),
           st\<lparr>invocations := invocations st @ map (Pair nm) calls\<rparr>))"

definition call_tool ::
    "registry \<Rightarrow> connector \<Rightarrow> server_state \<Rightarrow> string \<Rightarrow> (string \<times> json) list option \<Rightarrow> json \<times> server_state" where
  "call_tool reg get_client_and_db st nm arguments =
     (let db = cached_db (get_request_context st)
      in case map_of reg nm of
           None \<Rightarrow> (JObj [(''error'', JStr (''Unknown tool: '' @ nm))], st)
         | Some tool_reg \<Rightarrow>
             (case model_validate (model tool_reg) (case arguments of None \<Rightarrow> [] | Some a \<Rightarrow> a) of
                Inl ve \<Rightarrow>
                  (JObj [(''error'', JStr ''ValidationError''), (''tool'', JStr nm),
                         (''details'', JList (map violation_json ve))], st)
              | Inr parsed \<Rightarrow>
                  (case db of
                     Some h \<Rightarrow> dispatch_handler tool_reg nm h (model_dump parsed) st
                   | None \<Rightarrow>
                       (case get_client_and_db (connect_calls st) of
                          Inl e \<Rightarrow>
                            (JObj [(''error'', JStr ''Database unavailable''), (''tool'', JStr nm),
                                   (''hint'', JStr ''Ensure ArangoDB is reachable or check ARANGO_* environment variables.'')],
                             st\<lparr>connect_calls := Suc (connect_calls st)\<rparr>)
                        | Inr (client, db_conn) \<Rightarrow>
                            dispatch_handler tool_reg nm db_conn (model_dump parsed)
                              (cache_connection client db_conn (st\<lparr>connect_calls := Suc (connect_calls st)\<rparr>))))))"

section \<open>The backup and bulk-insert handlers (handlers.py)\<close>

text \<open>\<open>args.get(k)\<close>, Python truth values and \<open>a or b\<close>.\<close>

definition dict_get :: "(string \<times> json) list \<Rightarrow> string \<Rightarrow> json" where
  "dict_get d k = (case map_of d k of None \<Rightarrow> JNull | Some v \<Rightarrow> v)"

fun truthy :: "json \<Rightarrow> bool" where
  "truthy JNull = False"
| "truthy (JBool b) = b"
| "truthy (JInt i) = (i \<noteq> 0)"
| "truthy (JFloat q) = (q \<noteq> 0)"
| "truthy (JStr s) = (s \<noteq> [])"
| "truthy (JList xs) = (xs \<noteq> [])"
| "truthy (JObj d) = (d \<noteq> [])"

definition py_or :: "json \<Rightarrow> json \<Rightarrow> json" where
  "py_or a b = (if truthy a then a else b)"

text \<open>
  \<open>handle_backup(db, args)\<close> before decoration. The function
  \<open>backup_collections_to_dir\<close> writes files and is a parameter here, taking the
  handle and the keyword arguments \<open>output_dir\<close>, \<open>collections\<close> and \<open>doc_limit\<close>.
  The signature needs \<open>args\<close>; reading a key of something that is not a dictionary
  raises \<open>AttributeError\<close>.
\<close>

definition handle_backup :: "(handle \<Rightarrow> json \<Rightarrow> json \<Rightarrow> json \<Rightarrow> exn + json) \<Rightarrow> callable" where
  "handle_backup backup_collections_to_dir =
     \<lparr>binding = (\<lambda>shape.
        case shape of
          Positional a \<Rightarrow> None
        | Kwargs kw \<Rightarrow>
            if map fst kw = [''args''] then None
            else Some ''handle_backup() arguments do not match the signature''),
      body = (\<lambda>h shape.
        case wrapper_args shape of
          JObj args \<Rightarrow>
            (let output_dir = py_or (dict_get args ''output_dir'') (dict_get args ''outputDir'');
                 collections = dict_get args ''collections'';
                 single_collection = dict_get args ''collection'';
                 collections' = (if truthy single_collection \<and> \<not> truthy collections
                                 then JList [single_collection] else collections);
                 doc_limit = py_or (dict_get args ''doc_limit'') (dict_get args ''docLimit'')
             in backup_collections_to_dir h output_dir collections' doc_limit)
        | _ \<Rightarrow> Inl (Exn ''AttributeError'' [''Exception''] ''object has no attribute get''))\<rparr>"

text \<open>
  The arguments of \<open>handle_bulk_insert\<close>, typed as \<open>BulkInsertArgs\<close> annotates them;
  \<open>None\<close> stands for a key that the dictionary does not have.
\<close>

record bulk_insert_args =
  arg_collection :: "string option"
  arg_documents :: "json list option"
  arg_batch_size :: "int option"
  arg_on_error :: "string option"

record batch_error =
  err_batch_start :: nat
  err_batch_size :: nat
  err_message :: string

record bulk_results =
  total_documents :: nat
  inserted_count :: nat
  error_count :: nat
  errors :: "batch_error list"
  inserted_ids :: "json list"
  success_rate :: json

text \<open>
  The driver call \<open>collection.insert_many(batch, return_new=False, sync=True)\<close> on
  the named collection, for the batch that starts at the given offset: the list of
  per-document results, or the exception raised.
\<close>

type_synonym insert_many = "string \<Rightarrow> nat \<Rightarrow> json list \<Rightarrow> exn + json list"

text \<open>
  The loop \<open>for i in range(0, len(documents), batch_size)\<close> for a positive
  \<open>batch_size\<close>, from offset \<open>i\<close> on: \<open>i\<close> runs through 0, \<open>batch_size\<close>,
  2 * \<open>batch_size\<close>, ... while it is below the number of documents.
\<close>

function bulk_insert_loop ::
    "(nat \<Rightarrow> json list \<Rightarrow> exn + json list) \<Rightarrow> json list \<Rightarrow> nat \<Rightarrow> string \<Rightarrow> nat \<Rightarrow> bulk_results \<Rightarrow> bulk_results" where
  "bulk_insert_loop insert_batch documents batch_size on_error i results =
     (if 0 < batch_size \<and> i < length documents
      then
        (let batch = take batch_size (drop i documents)
         in case insert_batch i batch of
              Inr batch_result \<Rightarrow>
                bulk_insert_loop insert_batch documents batch_size on_error (i + batch_size)
                  (results\<lparr>inserted_count := inserted_count results + length batch_result,
                           inserted_ids := inserted_ids results @
                             map (\<lambda>r. case r of JObj d \<Rightarrow> dict_get d ''_id'' | _ \<Rightarrow> JNull)
                               (filter (\<lambda>r. case r of JObj d \<Rightarrow> True | _ \<Rightarrow> False) batch_result)\<rparr>)
            | Inl e \<Rightarrow>
                (let results' = results\<lparr>error_count := error_count results + length batch,
                                          errors := errors results @
                                            [\<lparr>err_batch_start = i, err_batch_size = length batch, err_message = msg e\<rparr>]\<rparr>
                 in if on_error = ''stop'' then results'
                    else bulk_insert_loop insert_batch documents batch_size on_error (i + batch_size) results'))
      else results)"
  by pat_completeness auto
termination
  by (relation "measure (\<lambda>(insert_batch, documents, batch_size, on_error, i, results). length documents - i)") auto

declare bulk_insert_loop.simps [simp del]

text \<open>
  \<open>a / b\<close> on two integers: \<open>ZeroDivisionError\<close> for the divisor 0, and otherwise the
  quotient (a float in Python; here the exact rational).
\<close>

definition ZeroDivisionError :: "string \<Rightarrow> exn" where
  "ZeroDivisionError m = Exn ''ZeroDivisionError'' [''ArithmeticError'', ''Exception''] m"

definition truediv :: "int \<Rightarrow> int \<Rightarrow> exn + json" where
  "truediv a b = (if b = 0 then Inl (ZeroDivisionError ''division by zero'') else Inr (JFloat (Fract a b)))"

text \<open>
  \<open>handle_bulk_insert(db, args)\<close> before decoration. \<open>args["collection"]\<close> raises
  \<open>KeyError\<close> on a missing key; \<open>range\<close> raises \<open>ValueError\<close> on a zero step and is
  empty for a negative one. The last statement divides only when
  \<open>results["total_documents"]\<close> is true, that is, not 0.
\<close>

definition handle_bulk_insert :: "insert_many \<Rightarrow> bulk_insert_args \<Rightarrow> exn + bulk_results" where
  "handle_bulk_insert insert_many args =
     (case arg_collection args of
        None \<Rightarrow> Inl (KeyError ''collection'')
      | Some collection \<Rightarrow>
          (let documents = (case arg_documents args of None \<Rightarrow> [] | Some ds \<Rightarrow> ds);
               batch_size = (case arg_batch_size args of None \<Rightarrow> 1000 | Some b \<Rightarrow> b);
               on_error = (case arg_on_error args of None \<Rightarrow> ''stop'' | Some s \<Rightarrow> s);
               results = \<lparr>total_documents = length documents, inserted_count = 0, error_count = 0,
                          errors = [], inserted_ids = [], success_rate = JNull\<rparr>
           in if batch_size = 0 then Inl (ValueError ''range() arg 3 must not be zero'')
              else
                (let results' = (if batch_size < 0 then results
                                 else bulk_insert_loop (insert_many collection) documents (nat batch_size) on_error 0 results)
                 in case (if total_documents results' \<noteq> 0
                          then truediv (int (inserted_count results')) (int (total_documents results'))
                          else Inr (JInt 0)) of
                      Inl e \<Rightarrow> Inl e
                    | Inr rate \<Rightarrow> Inr (results'\<lparr>success_rate := rate\<rparr>))))"

section \<open>Sample tools\<close>

text \<open>A tool without arguments that answers \<open>{"pong": true}\<close>, for either call shape.\<close>

definition ListCollectionsArgs :: model_class where
  "ListCollectionsArgs = \<lparr>populate_by_name = False, model_fields = []\<rparr>"

definition ping :: callable where
  "ping = \<lparr>binding = (\<lambda>shape. None), body = (\<lambda>h shape. Inr (JObj [(''pong'', JBool True)]))\<rparr>"

definition sample_tool :: "string \<Rightarrow> ToolRegistration" where
  "sample_tool nm = \<lparr>name = nm, description = ''sample'', model = ListCollectionsArgs, handler = ping\<rparr>"

text \<open>A handler whose body fails with a \<open>TypeError\<close> of its own in the keyword call,
  although its signature accepts both call shapes.\<close>

definition type_error_inside :: callable where
  "type_error_inside =
     \<lparr>binding = (\<lambda>shape. None),
      body = (\<lambda>h shape.
        case shape of
          Kwargs kw \<Rightarrow> Inl (TypeError ''unsupported operand type(s)'')
        | Positional a \<Rightarrow> Inr (JStr ''second call''))\<rparr>"

text \<open>A function \<open>def f(db, args)\<close> whose body raises the given exception.\<close>

definition raises :: "exn \<Rightarrow> callable" where
  "raises e =
     \<lparr>binding = (\<lambda>shape.
        case shape of
          Positional a \<Rightarrow> None
        | Kwargs kw \<Rightarrow>
            if map fst kw = [''args''] then None
            else Some ''f() arguments do not match the signature''),
      body = (\<lambda>h shape. Inl e)\<rparr>"

definition never_connects :: connector where
  "never_connects k = Inl (Exn ''ServerConnectionError'' [''ArangoClientError'', ''ArangoError'', ''Exception''] ''unreachable'')"

definition always_connects :: connector where
  "always_connects k = Inr (1, 2)"

definition ten_tools :: "ToolRegistration list" where
  "ten_tools = map sample_tool [''t0'', ''t1'', ''t2'', ''t3'', ''t4'', ''t5'', ''t6'', ''t7'', ''t8'', ''t9'']"

text \<open>An environment as a pytest run sets it, without the compatibility toggle.\<close>

definition pytest_env :: "string \<Rightarrow> string option" where
  "pytest_env k = (if k = ''PYTEST_CURRENT_TEST'' then Some ''tests/test_entry.py::test_list (call)'' else None)"

definition no_env :: "string \<Rightarrow> string option" where
  "no_env k = None"

text \<open>Server states: the context attribute never set, set to \<open>None\<close>, and set to a
  context object with the given lifespan context.\<close>

definition fresh_server :: server_state where
  "fresh_server = \<lparr>safe_request_context = None, connect_calls = 0, invocations = []\<rparr>"

definition detached :: server_state where
  "detached = \<lparr>safe_request_context = Some None, connect_calls = 0, invocations = []\<rparr>"

definition serving :: "(string \<times> handle option) list option \<Rightarrow> server_state" where
  "serving lifespan =
     \<lparr>safe_request_context = Some (Some (RequestContext lifespan)), connect_calls = 0, invocations = []\<rparr>"

text \<open>A registry with one tool \<open>insert_doc\<close> whose arguments are \<open>InsertArgs\<close>, and one
  with the tool \<open>ping\<close>.\<close>

definition insert_registry :: registry where
  "insert_registry =
     populate [] [\<lparr>name = ''insert_doc'', description = ''Insert a document into a collection.'',
                   model = InsertArgs, handler = ping\<rparr>]"

definition ping_registry :: registry where
  "ping_registry = populate [] [sample_tool ''ping'']"

text \<open>A stand-in for \<open>backup_collections_to_dir\<close> that reports the keyword arguments it
  was given, and a registry with the backup tool.\<close>

definition echo_backup :: "handle \<Rightarrow> json \<Rightarrow> json \<Rightarrow> json \<Rightarrow> exn + json" where
  "echo_backup h output_dir collections doc_limit =
     Inr (JObj [(''output_dir'', output_dir), (''collections'', collections), (''doc_limit'', doc_limit)])"

definition backup_registry :: registry where
  "backup_registry =
     populate [] [\<lparr>name = ''arango_backup'', description = ''Backup collections to JSON files.'',
                   model = BackupArgs, handler = handle_errors (handle_backup echo_backup)\<rparr>]"

text \<open>A driver that stores every document of a batch and answers one result each.\<close>

definition insert_all :: insert_many where
  "insert_all collection i batch = Inr (map (\<lambda>d. JObj [(''_id'', JStr collection)]) batch)"

text \<open>A driver (a test double, say) that answers two results for every document of a batch.\<close>

definition two_per_doc :: insert_many where
  "two_per_doc collection i batch =
     Inr (concat (map (\<lambda>d. [JObj [(''_id'', JStr collection)], JObj [(''_id'', JStr collection)]]) batch))"

section \<open>Properties\<close>

subsection \<open>Dictionaries, registry population and the connection loop\<close>

lemma map_of_dict_set: "map_of (dict_set d k v) = (map_of d)(k \<mapsto> v)"
  by (induction d) (auto simp: fun_eq_iff)

lemma dict_set_not_empty: "dict_set d k v \<noteq> []"
  by (cases d) (auto split: if_splits)

lemma populate_append: "populate r (ts @ us) = populate (populate r ts) us"
  by (induction ts arbitrary: r) auto

lemma map_of_populate:
  "map_of (populate r ts) = map_of r ++ map_of (rev (map (\<lambda>t. (name t, t)) ts))"
proof (induction ts arbitrary: r)
  case Nil
  show ?case by simp
next
  case (Cons t ts)
  have "map_of (populate r (t # ts)) =
        (map_of r)(name t \<mapsto> t) ++ map_of (rev (map (\<lambda>t. (name t, t)) ts))"
    by (simp only: populate.simps Cons.IH map_of_dict_set)
  also have "\<dots> = map_of r ++ map_of (rev (map (\<lambda>t. (name t, t)) (t # ts)))"
    by (auto simp: fun_eq_iff map_add_def split: option.splits)
  finally show ?case .
qed

lemma populate_not_empty: "r \<noteq> [] \<Longrightarrow> populate r ts \<noteq> []"
  by (induction ts arbitrary: r) (auto simp: dict_set_not_empty)

lemma populate_empty_iff: "populate [] ts = [] \<longleftrightarrow> ts = []"
  by (cases ts) (auto simp: populate_not_empty dict_set_not_empty)

lemma populate_distinct:
  "distinct (map name ts) \<Longrightarrow> name ` set ts \<inter> fst ` set r = {} \<Longrightarrow>
   populate r ts = r @ map (\<lambda>t. (name t, t)) ts"
proof (induction ts arbitrary: r)
  case Nil
  show ?case by simp
next
  case (Cons t ts)
  have fresh: "name t \<notin> fst ` set r" using Cons.prems(2) by auto
  have step: "dict_set r (name t) t = r @ [(name t, t)]"
    using fresh by (induction r) auto
  have "populate (r @ [(name t, t)]) ts = (r @ [(name t, t)]) @ map (\<lambda>t. (name t, t)) ts"
    using Cons.prems by (intro Cons.IH) auto
  then show ?case by (simp add: step)
qed

lemma connect_loop_calls_le:
  "st_calls (connect_loop conn r atts s) \<le> st_calls s + length atts"
proof (induction atts arbitrary: s)
  case Nil
  show ?case by simp
next
  case (Cons a atts)
  show ?case
  proof (cases "conn (st_calls s)")
    case (Inr p)
    then show ?thesis by (cases p) simp
  next
    case (Inl e)
    show ?thesis
    proof (cases "a < r")
      case True
      have "st_calls (connect_loop conn r atts (s\<lparr>st_calls := Suc (st_calls s), st_sleeps := Suc (st_sleeps s)\<rparr>))
            \<le> Suc (st_calls s) + length atts"
        using Cons.IH [of "s\<lparr>st_calls := Suc (st_calls s), st_sleeps := Suc (st_sleeps s)\<rparr>"] by simp
      with Inl True show ?thesis by simp
    next
      case False
      with Inl show ?thesis by simp
    qed
  qed
qed

lemma connect_with_retry_calls_le:
  "st_calls (connect_with_retry conn retries) \<le> nat (max 1 retries)"
  using connect_loop_calls_le [of conn retries "[1..max 1 retries]"
      "\<lparr>st_client = None, st_db = None, st_calls = 0, st_sleeps = 0\<rparr>"]
  by (simp add: connect_with_retry_def)

lemma connect_loop_all_fail:
  assumes "i \<le> m" and "r \<le> m" and "i < m \<longrightarrow> m = r"
    and "\<forall>k. st_calls s \<le> k \<and> k < st_calls s + nat (m - i + 1) \<longrightarrow> isl (conn k)"
  shows "connect_loop conn r [i..m] s =
         s\<lparr>st_client := None, st_db := None, st_calls := st_calls s + nat (m - i + 1),
           st_sleeps := st_sleeps s + nat (m - i)\<rparr>"
  using assms
proof (induction "nat (m - i)" arbitrary: i s)
  case 0
  then have im: "i = m" by simp
  have "isl (conn (st_calls s))" using "0.prems"(4) im by simp
  then obtain e where e: "conn (st_calls s) = Inl e" by (cases "conn (st_calls s)") auto
  have "[i..m] = [m]" using im by (simp add: upto_rec1)
  then show ?case using e im "0.prems"(2) by simp
next
  case (Suc n)
  then have lt: "i < m" and mr: "m = r" by auto
  have "isl (conn (st_calls s))" using Suc.prems(4) lt by simp
  then obtain e where e: "conn (st_calls s) = Inl e" by (cases "conn (st_calls s)") auto
  have up: "[i..m] = i # [i + 1..m]" using lt by (simp add: upto_rec1)
  let ?s = "s\<lparr>st_calls := Suc (st_calls s), st_sleeps := Suc (st_sleeps s)\<rparr>"
  have IH: "connect_loop conn r [i + 1..m] ?s =
        ?s\<lparr>st_client := None, st_db := None, st_calls := st_calls ?s + nat (m - (i + 1) + 1),
           st_sleeps := st_sleeps ?s + nat (m - (i + 1))\<rparr>"
  proof (rule Suc.hyps(1))
    show "n = nat (m - (i + 1))" using Suc.hyps(2) by simp
    show "i + 1 \<le> m" using lt by simp
    show "r \<le> m" using mr by simp
    show "i + 1 < m \<longrightarrow> m = r" using mr by simp
    show "\<forall>k. st_calls ?s \<le> k \<and> k < st_calls ?s + nat (m - (i + 1) + 1) \<longrightarrow> isl (conn k)"
    proof (intro allI impI)
      fix k assume k: "st_calls ?s \<le> k \<and> k < st_calls ?s + nat (m - (i + 1) + 1)"
      have "st_calls s \<le> k \<and> k < st_calls s + nat (m - i + 1)"
        using k lt by (simp add: nat_add_distrib)
      then show "isl (conn k)" using Suc.prems(4) by blast
    qed
  qed
  have "nat (m - i + 1) = Suc (nat (m - i))" "nat (m - i) = Suc (nat (m - (i + 1)))"
    using lt by simp_all
  then show ?case using e lt mr up IH by simp
qed

lemma connect_with_retry_all_fail:
  assumes "\<forall>k < nat (max 1 retries). isl (conn k)"
  shows "connect_with_retry conn retries =
         \<lparr>st_client = None, st_db = None, st_calls = nat (max 1 retries),
          st_sleeps = nat (max 1 retries) - 1\<rparr>"
proof -
  let ?s = "\<lparr>st_client = None, st_db = None, st_calls = 0, st_sleeps = 0\<rparr>"
  have "connect_loop conn retries [1..max 1 retries] ?s =
        ?s\<lparr>st_client := None, st_db := None, st_calls := st_calls ?s + nat (max 1 retries - 1 + 1),
           st_sleeps := st_sleeps ?s + nat (max 1 retries - 1)\<rparr>"
    by (rule connect_loop_all_fail) (use assms in auto)
  then show ?thesis by (simp add: connect_with_retry_def nat_diff_distrib)
qed

lemma connect_with_retry_below_one:
  assumes "retries < 1"
  shows "connect_with_retry conn retries = connect_with_retry conn 1"
proof -
  have "max 1 retries = 1" using assms by simp
  then show ?thesis using assms
    by (cases "conn 0") (auto simp: connect_with_retry_def upto_rec1 split: prod.splits)
qed

lemma TOOL_REGISTRY_not_empty: "TOOL_REGISTRY names descriptions models handlers \<noteq> []"
  by (simp add: TOOL_REGISTRY_def registration_order_def populate_not_empty dict_set_not_empty)

subsection \<open>Startup connection retries\<close>

text \<open>
  Claim C6. With three attempts configured, the startup loop calls the connect function
  at most three times, and when all three attempts fail it ends with no database
  handle after exactly three calls. For any configured number the calls are bounded by
  \<open>max 1 retries\<close>; a number below one behaves as one and makes exactly one call. When
  every attempt fails, \<open>server_lifespan\<close> on the populated registry still yields its
  context, with \<open>db\<close> and \<open>client\<close> both \<open>None\<close>; it never raises, whatever the
  connection attempts do.
\<close>

theorem startup_retry_bound:
  "st_calls (connect_with_retry conn 3) \<le> 3
   \<and> ((\<forall>k<3. isl (conn k)) \<longrightarrow>
        st_db (connect_with_retry conn 3) = None \<and> st_calls (connect_with_retry conn 3) = 3)
   \<and> st_calls (connect_with_retry conn retries) \<le> nat (max 1 retries)
   \<and> (retries < 1 \<longrightarrow>
        connect_with_retry conn retries = connect_with_retry conn 1
        \<and> st_calls (connect_with_retry conn retries) = 1)
   \<and> ((\<forall>k < nat (max 1 retries). isl (conn k)) \<longrightarrow>
        server_lifespan (TOOL_REGISTRY names descriptions models handlers) conn retries
          = Inr [(''db'', None), (''client'', None)])
   \<and> \<not> isl (server_lifespan (TOOL_REGISTRY names descriptions models handlers) conn retries)"
proof -
  have a: "st_calls (connect_with_retry conn 3) \<le> 3"
    using connect_with_retry_calls_le [of conn 3] by simp
  have b: "(\<forall>k<3. isl (conn k)) \<longrightarrow>
        st_db (connect_with_retry conn 3) = None \<and> st_calls (connect_with_retry conn 3) = 3"
    using connect_with_retry_all_fail [of 3 conn] by simp
  have c: "retries < 1 \<longrightarrow> st_calls (connect_with_retry conn retries) = 1"
    by (cases "conn 0") (auto simp: connect_with_retry_def upto_rec1 split: prod.splits)
  have d: "(\<forall>k < nat (max 1 retries). isl (conn k)) \<longrightarrow>
        server_lifespan (TOOL_REGISTRY names descriptions models handlers) conn retries
          = Inr [(''db'', None), (''client'', None)]"
    using connect_with_retry_all_fail [of retries conn]
    by (simp add: server_lifespan_def TOOL_REGISTRY_not_empty)
  have e: "\<not> isl (server_lifespan (TOOL_REGISTRY names descriptions models handlers) conn retries)"
    by (simp add: server_lifespan_def TOOL_REGISTRY_not_empty Let_def)
  show ?thesis
    using a b c d e connect_with_retry_calls_le connect_with_retry_below_one by blast
qed

theorem startup_retry_bound_witness:
  "st_db (connect_with_retry never_connects 3) = None
   \<and> st_calls (connect_with_retry never_connects 3) = 3
   \<and> (0::int) < 1
   \<and> st_calls (connect_with_retry never_connects 0) = 1
   \<and> server_lifespan (TOOL_REGISTRY (\<lambda>t. ''tool'') (\<lambda>t. []) (\<lambda>t. ListCollectionsArgs) (\<lambda>t. ping)) never_connects 0
       = Inr [(''db'', None), (''client'', None)]"
proof -
  have h3: "\<forall>k<3. isl (never_connects k)"
    by (simp add: never_connects_def)
  have h1: "\<forall>k < nat (max 1 0). isl (never_connects k)"
    by (simp add: never_connects_def)
  have lt: "(0::int) < 1" by simp
  show ?thesis
    using h3 h1 lt
      startup_retry_bound [of never_connects 0 "\<lambda>t. ''tool''" "\<lambda>t. []" "\<lambda>t. ListCollectionsArgs" "\<lambda>t. ping"]
    by blast
qed

subsection \<open>Registry population\<close>

text \<open>
  Claim C1, as stated, fails: registering a second tool under a name already present
  raises nothing and replaces the first registration, and startup goes through.
  Here two different registrations share the name \<open>ping\<close>: the registry holds the
  second one, and \<open>server_lifespan\<close> does not raise.
\<close>

theorem duplicate_registration_counterexample:
  "map_of (populate [] [sample_tool ''ping'', (sample_tool ''ping'')\<lparr>description := ''replacement''\<rparr>]) ''ping''
     = Some ((sample_tool ''ping'')\<lparr>description := ''replacement''\<rparr>)
   \<and> sample_tool ''ping'' \<noteq> (sample_tool ''ping'')\<lparr>description := ''replacement''\<rparr>
   \<and> \<not> isl (server_lifespan
         (populate [] [sample_tool ''ping'', (sample_tool ''ping'')\<lparr>description := ''replacement''\<rparr>])
         never_connects 3)"
  by (simp add: sample_tool_def server_lifespan_def Let_def)

text \<open>
  Claim C1, amended. Registry population is keyed assignment: after the registration
  phase every registered name maps to the registration it was given last, and startup
  raises exactly when nothing was registered at all.
\<close>

theorem registration_last_wins:
  "map_of (populate [] regs) nm = map_of (rev (map (\<lambda>t. (name t, t)) regs)) nm
   \<and> isl (server_lifespan (populate [] regs) conn retries) = (regs = [])"
  by (simp add: map_of_populate server_lifespan_def populate_empty_iff Let_def)

subsection \<open>Tool listing\<close>

text \<open>
  Claim C7, as stated, fails: with the toggle \<open>MCP_COMPAT_TOOLSET\<close> unset, a run under
  pytest (\<open>PYTEST_CURRENT_TEST\<close> set) lists 7 of 10 registered tools.
\<close>

theorem listing_truncated_counterexample:
  "pytest_env ''MCP_COMPAT_TOOLSET'' = None
   \<and> length (populate [] ten_tools) = 10
   \<and> length (handle_list_tools pytest_env (populate [] ten_tools)) = 7"
  by (simp add: pytest_env_def ten_tools_def sample_tool_def handle_list_tools_def registry_tools_def Let_def)

lemma registry_tools_names:
  "distinct (map name regs) \<Longrightarrow> map tool_name (registry_tools (populate [] regs)) = map name regs"
  by (simp add: populate_distinct registry_tools_def comp_def)

text \<open>
  Claim C7, amended. The listing is the registered tools in registry order, which is
  registration order when the registered names are distinct. It is cut to the first 7
  exactly when \<open>MCP_COMPAT_TOOLSET\<close> is \<open>baseline\<close>, or when \<open>MCP_COMPAT_TOOLSET\<close> is unset
  and \<open>PYTEST_CURRENT_TEST\<close> is set to a non-empty value; in every other case it holds
  all registered tools.
\<close>

theorem listing_rule:
  "handle_list_tools getenv reg =
     (if getenv ''MCP_COMPAT_TOOLSET'' = Some ''baseline''
         \<or> (getenv ''MCP_COMPAT_TOOLSET'' = None
             \<and> getenv ''PYTEST_CURRENT_TEST'' \<noteq> None \<and> getenv ''PYTEST_CURRENT_TEST'' \<noteq> Some [])
      then take 7 (registry_tools reg)
      else registry_tools reg)
   \<and> (distinct (map name regs) \<longrightarrow>
        map tool_name (registry_tools (populate [] regs)) = map name regs)"
  by (auto simp: handle_list_tools_def Let_def registry_tools_names split: option.splits)

theorem listing_rule_witness:
  "map tool_name (handle_list_tools no_env (populate [] ten_tools))
     = [''t0'', ''t1'', ''t2'', ''t3'', ''t4'', ''t5'', ''t6'', ''t7'', ''t8'', ''t9'']
   \<and> map tool_name (handle_list_tools (no_env(''MCP_COMPAT_TOOLSET'' := Some ''baseline'')) (populate [] ten_tools))
     = [''t0'', ''t1'', ''t2'', ''t3'', ''t4'', ''t5'', ''t6'']"
proof -
  have d: "distinct (map name ten_tools)"
    by (simp add: ten_tools_def sample_tool_def)
  have n: "map name ten_tools = [''t0'', ''t1'', ''t2'', ''t3'', ''t4'', ''t5'', ''t6'', ''t7'', ''t8'', ''t9'']"
    by (simp add: ten_tools_def sample_tool_def)
  have full: "map tool_name (registry_tools (populate [] ten_tools)) = map name ten_tools"
    using d listing_rule [of no_env "populate [] ten_tools" ten_tools] by blast
  have a: "handle_list_tools no_env (populate [] ten_tools) = registry_tools (populate [] ten_tools)"
    using listing_rule [of no_env "populate [] ten_tools" ten_tools] by (simp add: no_env_def)
  have b: "handle_list_tools (no_env(''MCP_COMPAT_TOOLSET'' := Some ''baseline'')) (populate [] ten_tools)
           = take 7 (registry_tools (populate [] ten_tools))"
    using listing_rule [of "no_env(''MCP_COMPAT_TOOLSET'' := Some ''baseline'')" "populate [] ten_tools" ten_tools]
    by simp
  show ?thesis
    by (simp add: a b full n take_map [symmetric])
qed

subsection \<open>Dispatch of an unknown tool\<close>

text \<open>
  Claim C5. For a name that the registry does not have, and for any arguments,
  \<open>call_tool\<close> answers \<open>{"error": "Unknown tool: <name>"}\<close> and leaves the server state
  as it was: no connection attempt is counted, no handler call is recorded, and the
  arguments are not looked at.
\<close>

theorem unknown_tool_isolated:
  "map_of reg nm = None \<Longrightarrow>
   call_tool reg conn st nm arguments = (JObj [(''error'', JStr (''Unknown tool: '' @ nm))], st)"
  by (simp add: call_tool_def)

theorem unknown_tool_isolated_witness:
  "call_tool (populate [] [sample_tool ''ping'']) always_connects fresh_server ''nonexistent_tool'' (Some [])
     = (JObj [(''error'', JStr ''Unknown tool: nonexistent_tool'')], fresh_server)"
  using unknown_tool_isolated [of "populate [] [sample_tool ''ping'']" "''nonexistent_tool''"
      always_connects fresh_server "Some []"]
  by (simp add: sample_tool_def)

subsection \<open>Lazy reconnect\<close>

lemma dispatch_handler_state:
  "safe_request_context (snd (dispatch_handler tool_reg nm h args st)) = safe_request_context st
   \<and> connect_calls (snd (dispatch_handler tool_reg nm h args st)) = connect_calls st"
  by (simp add: dispatch_handler_def split: prod.splits)

lemma dispatch_handler_answer:
  "fst (dispatch_handler tool_reg nm h args st) = fst (dispatch_handler tool_reg nm h args st')"
  by (simp add: dispatch_handler_def split: prod.splits)

lemma dispatch_handler_invocations:
  "invocations (snd (dispatch_handler tool_reg nm h args st))
     = invocations st @ map (Pair nm) (snd (invoke_handler (handler tool_reg) h args))"
  by (simp add: dispatch_handler_def split: prod.splits)

lemma call_tool_cached:
  assumes "cached_db (get_request_context st) = Some h"
  shows "connect_calls (snd (call_tool reg conn st nm arguments)) = connect_calls st
         \<and> safe_request_context (snd (call_tool reg conn st nm arguments)) = safe_request_context st"
proof (cases "map_of reg nm")
  case None
  then show ?thesis by (simp add: call_tool_def)
next
  case (Some tool_reg)
  show ?thesis
  proof (cases "model_validate (model tool_reg) (case arguments of None \<Rightarrow> [] | Some a \<Rightarrow> a)")
    case (Inl ve)
    with Some show ?thesis by (simp add: call_tool_def)
  next
    case (Inr parsed)
    with Some assms show ?thesis by (simp add: call_tool_def dispatch_handler_state)
  qed
qed

lemma call_tool_cached_dispatch:
  assumes "cached_db (get_request_context st) = Some h"
    and "map_of reg nm = Some tool_reg"
    and "model_validate (model tool_reg) (case arguments of None \<Rightarrow> [] | Some a \<Rightarrow> a) = Inr parsed"
  shows "call_tool reg conn st nm arguments = dispatch_handler tool_reg nm h (model_dump parsed) st"
  using assms by (simp add: call_tool_def)

lemma call_tool_unavailable:
  assumes "cached_db (get_request_context st) = None"
    and "map_of reg nm = Some tool_reg"
    and "model_validate (model tool_reg) (case arguments of None \<Rightarrow> [] | Some a \<Rightarrow> a) = Inr parsed"
    and "conn (connect_calls st) = Inl e"
  shows "call_tool reg conn st nm arguments =
            (JObj [(''error'', JStr ''Database unavailable''), (''tool'', JStr nm),
                   (''hint'', JStr ''Ensure ArangoDB is reachable or check ARANGO_* environment variables.'')],
             st\<lparr>connect_calls := Suc (connect_calls st)\<rparr>)"
  using assms by (simp add: call_tool_def)

lemma call_tool_connects:
  assumes "cached_db (get_request_context st) = None"
    and "map_of reg nm = Some tool_reg"
    and "model_validate (model tool_reg) (case arguments of None \<Rightarrow> [] | Some a \<Rightarrow> a) = Inr parsed"
    and "conn (connect_calls st) = Inr (client, db_conn)"
  shows "call_tool reg conn st nm arguments =
           dispatch_handler tool_reg nm db_conn (model_dump parsed)
             (cache_connection client db_conn (st\<lparr>connect_calls := Suc (connect_calls st)\<rparr>))"
  using assms by (simp add: call_tool_def)

lemma cached_after_cache_connection:
  assumes "safe_request_context st = Some (Some (RequestContext (Some d)))"
  shows "cached_db (get_request_context (cache_connection client db_conn st)) = Some db_conn"
proof -
  let ?d = "dict_set (dict_set d ''db'' (Some db_conn)) ''client'' (Some client)"
  have "?d \<noteq> []" by (rule dict_set_not_empty)
  moreover have "map_of ?d ''db'' = Some (Some db_conn)"
    by (simp add: map_of_dict_set)
  ultimately show ?thesis
    using assms by (simp add: cache_connection_def get_request_context_def cached_db_def)
qed

lemma cache_connection_calls: "connect_calls (cache_connection c d st) = connect_calls st"
  by (simp add: cache_connection_def split: option.splits)

lemma cache_connection_invocations: "invocations (cache_connection c d st) = invocations st"
  by (simp add: cache_connection_def split: option.splits)

lemma cache_connection_nowhere:
  assumes "safe_request_context st = Some None \<or> safe_request_context st = Some (Some (RequestContext None))"
  shows "cache_connection c d st = st"
  using assms by (auto simp: cache_connection_def)

lemma call_tool_attempts:
  assumes "cached_db (get_request_context st) = None"
    and "map_of reg nm = Some tool_reg"
    and "model_validate (model tool_reg) (case arguments of None \<Rightarrow> [] | Some a \<Rightarrow> a) = Inr parsed"
  shows "connect_calls (snd (call_tool reg conn st nm arguments)) = Suc (connect_calls st)"
proof (cases "conn (connect_calls st)")
  case (Inl e)
  show ?thesis by (simp add: call_tool_unavailable [where conn = conn and st = st, OF assms Inl])
next
  case (Inr p)
  obtain client db_conn where p: "p = (client, db_conn)" by (cases p)
  have ok: "conn (connect_calls st) = Inr (client, db_conn)" using Inr p by simp
  show ?thesis
    by (simp add: call_tool_connects [where conn = conn and st = st, OF assms ok]
        dispatch_handler_state cache_connection_calls)
qed

lemma ping_registry_lookup: "map_of ping_registry ''ping'' = Some (sample_tool ''ping'')"
  by (simp add: ping_registry_def sample_tool_def)

lemma ping_validates:
  "model_validate (model (sample_tool ''ping'')) (case None of None \<Rightarrow> [] | Some a \<Rightarrow> a) = Inr []"
  by (simp add: sample_tool_def ListCollectionsArgs_def model_validate_def)

lemma ping_answer:
  "fst (dispatch_handler (sample_tool ''ping'') ''ping'' h (model_dump []) st) = JObj [(''pong'', JBool True)]"
  by (simp add: dispatch_handler_def invoke_handler_def call_def sample_tool_def ping_def model_dump_def)

text \<open>
  Claim C3, as stated, fails in its last part: a successful lazy connection is not
  always cached. The assignments that cache it stand under the guard
  \<open>if ctx and ctx.lifespan_context is not None\<close>: for a request context whose
  \<open>lifespan_context\<close> is \<open>None\<close>, the first dispatch connects and answers, nothing is
  stored, and the dispatch right after it connects again; and so it is for a request
  context that is \<open>None\<close>.
\<close>

theorem lazy_reconnect_counterexample:
  "cached_db (get_request_context (serving None)) = None
   \<and> fst (call_tool ping_registry always_connects (serving None) ''ping'' None) = JObj [(''pong'', JBool True)]
   \<and> connect_calls (snd (call_tool ping_registry always_connects (serving None) ''ping'' None)) = 1
   \<and> cached_db (get_request_context
        (snd (call_tool ping_registry always_connects (serving None) ''ping'' None))) = None
   \<and> connect_calls (snd (call_tool ping_registry always_connects
        (snd (call_tool ping_registry always_connects (serving None) ''ping'' None)) ''ping'' None)) = 2
   \<and> cached_db (get_request_context detached) = None
   \<and> fst (call_tool ping_registry always_connects detached ''ping'' None) = JObj [(''pong'', JBool True)]
   \<and> connect_calls (snd (call_tool ping_registry always_connects
        (snd (call_tool ping_registry always_connects detached ''ping'' None)) ''ping'' None)) = 2"
  by (simp add: serving_def detached_def ping_registry_def sample_tool_def ListCollectionsArgs_def
      ping_def always_connects_def call_tool_def get_request_context_def cached_db_def
      model_validate_def model_dump_def dispatch_handler_def invoke_handler_def call_def
      cache_connection_def)

text \<open>
  Claim C3, amended. When no handle is cached and lookup and validation succeed, a
  dispatch makes exactly one connection attempt. If it fails, the answer is
  \<open>{"error": "Database unavailable", "tool": <name>, "hint": ...}\<close>. If it succeeds,
  the handler runs with the new handle and its result is the answer. The handle is
  stored when the request context held by the server has a dictionary as
  \<open>lifespan_context\<close>: then any dispatch right after makes no further attempt and runs
  its handler with that handle. When that request context is \<open>None\<close>, or its
  \<open>lifespan_context\<close> is \<open>None\<close>, nothing is stored, and a dispatch right after that
  passes lookup and validation makes one more attempt.
\<close>

theorem lazy_reconnect:
  assumes "cached_db (get_request_context st) = None"
    and "map_of reg nm = Some tool_reg"
    and "model_validate (model tool_reg) (case arguments of None \<Rightarrow> [] | Some a \<Rightarrow> a) = Inr parsed"
  shows "connect_calls (snd (call_tool reg conn st nm arguments)) = Suc (connect_calls st)
    \<and> (\<forall>e. conn (connect_calls st) = Inl e \<longrightarrow>
          call_tool reg conn st nm arguments =
            (JObj [(''error'', JStr ''Database unavailable''), (''tool'', JStr nm),
                   (''hint'', JStr ''Ensure ArangoDB is reachable or check ARANGO_* environment variables.'')],
             st\<lparr>connect_calls := Suc (connect_calls st)\<rparr>))
    \<and> (\<forall>client db_conn. conn (connect_calls st) = Inr (client, db_conn) \<longrightarrow>
          fst (call_tool reg conn st nm arguments)
            = fst (dispatch_handler tool_reg nm db_conn (model_dump parsed) st)
          \<and> invocations (snd (call_tool reg conn st nm arguments))
            = invocations st @ map (Pair nm) (snd (invoke_handler (handler tool_reg) db_conn (model_dump parsed)))
          \<and> (\<forall>d. safe_request_context st = Some (Some (RequestContext (Some d))) \<longrightarrow>
                cached_db (get_request_context (snd (call_tool reg conn st nm arguments))) = Some db_conn
                \<and> (\<forall>nm' arguments'.
                      connect_calls (snd (call_tool reg conn (snd (call_tool reg conn st nm arguments)) nm' arguments'))
                        = Suc (connect_calls st))
                \<and> (\<forall>nm' arguments' tool_reg' parsed'.
                      map_of reg nm' = Some tool_reg'
                      \<and> model_validate (model tool_reg') (case arguments' of None \<Rightarrow> [] | Some a \<Rightarrow> a) = Inr parsed' \<longrightarrow>
                      call_tool reg conn (snd (call_tool reg conn st nm arguments)) nm' arguments'
                        = dispatch_handler tool_reg' nm' db_conn (model_dump parsed')
                            (snd (call_tool reg conn st nm arguments))))
          \<and> (safe_request_context st = Some None
               \<or> safe_request_context st = Some (Some (RequestContext None)) \<longrightarrow>
                safe_request_context (snd (call_tool reg conn st nm arguments)) = safe_request_context st
                \<and> cached_db (get_request_context (snd (call_tool reg conn st nm arguments))) = None
                \<and> (\<forall>nm' arguments' tool_reg' parsed'.
                      map_of reg nm' = Some tool_reg'
                      \<and> model_validate (model tool_reg') (case arguments' of None \<Rightarrow> [] | Some a \<Rightarrow> a) = Inr parsed' \<longrightarrow>
                      connect_calls (snd (call_tool reg conn (snd (call_tool reg conn st nm arguments)) nm' arguments'))
                        = Suc (Suc (connect_calls st)))))"
proof (intro conjI allI impI)
  let ?st' = "snd (call_tool reg conn st nm arguments)"
  show calls: "connect_calls ?st' = Suc (connect_calls st)"
    by (rule call_tool_attempts [OF assms])
  {
    fix e assume fail: "conn (connect_calls st) = Inl e"
    show "call_tool reg conn st nm arguments =
            (JObj [(''error'', JStr ''Database unavailable''), (''tool'', JStr nm),
                   (''hint'', JStr ''Ensure ArangoDB is reachable or check ARANGO_* environment variables.'')],
             st\<lparr>connect_calls := Suc (connect_calls st)\<rparr>)"
      by (rule call_tool_unavailable [where conn = conn and st = st, OF assms fail])
  }
  {
    fix client db_conn
    assume ok: "conn (connect_calls st) = Inr (client, db_conn)"
    let ?st1 = "cache_connection client db_conn (st\<lparr>connect_calls := Suc (connect_calls st)\<rparr>)"
    have eq: "call_tool reg conn st nm arguments = dispatch_handler tool_reg nm db_conn (model_dump parsed) ?st1"
      by (rule call_tool_connects [where conn = conn and st = st, OF assms ok])
    show "fst (call_tool reg conn st nm arguments)
            = fst (dispatch_handler tool_reg nm db_conn (model_dump parsed) st)"
      unfolding eq by (rule dispatch_handler_answer)
    show "invocations ?st'
            = invocations st @ map (Pair nm) (snd (invoke_handler (handler tool_reg) db_conn (model_dump parsed)))"
      unfolding eq by (simp add: dispatch_handler_invocations cache_connection_invocations)
    have ctx: "safe_request_context ?st' = safe_request_context ?st1"
      unfolding eq by (simp add: dispatch_handler_state)
    then have same: "get_request_context ?st' = get_request_context ?st1"
      by (simp add: get_request_context_def)
    {
      fix d
      assume held: "safe_request_context st = Some (Some (RequestContext (Some d)))"
      have "cached_db (get_request_context ?st1) = Some db_conn"
        using held by (intro cached_after_cache_connection) simp
      then show cached: "cached_db (get_request_context ?st') = Some db_conn"
        by (simp add: same)
      {
        fix nm' arguments'
        show "connect_calls (snd (call_tool reg conn ?st' nm' arguments')) = Suc (connect_calls st)"
          using call_tool_cached [OF cached] calls by simp
      }
      {
        fix nm' arguments' tool_reg' parsed'
        assume "map_of reg nm' = Some tool_reg'
                \<and> model_validate (model tool_reg') (case arguments' of None \<Rightarrow> [] | Some a \<Rightarrow> a) = Inr parsed'"
        then show "call_tool reg conn ?st' nm' arguments'
                  = dispatch_handler tool_reg' nm' db_conn (model_dump parsed') ?st'"
          using call_tool_cached_dispatch [OF cached] by simp
      }
    }
    {
      assume nowhere: "safe_request_context st = Some None
               \<or> safe_request_context st = Some (Some (RequestContext None))"
      then have "safe_request_context (st\<lparr>connect_calls := Suc (connect_calls st)\<rparr>) = Some None
          \<or> safe_request_context (st\<lparr>connect_calls := Suc (connect_calls st)\<rparr>) = Some (Some (RequestContext None))"
        by simp
      then have "?st1 = st\<lparr>connect_calls := Suc (connect_calls st)\<rparr>"
        by (rule cache_connection_nowhere)
      with ctx show kept: "safe_request_context ?st' = safe_request_context st"
        by simp
      then have "get_request_context ?st' = get_request_context st"
        by (simp add: get_request_context_def)
      with assms(1) show absent: "cached_db (get_request_context ?st') = None"
        by simp
      {
        fix nm' arguments' tool_reg' parsed'
        assume next_ok: "map_of reg nm' = Some tool_reg'
                \<and> model_validate (model tool_reg') (case arguments' of None \<Rightarrow> [] | Some a \<Rightarrow> a) = Inr parsed'"
        from next_ok have l: "map_of reg nm' = Some tool_reg'"
          and v: "model_validate (model tool_reg') (case arguments' of None \<Rightarrow> [] | Some a \<Rightarrow> a) = Inr parsed'"
          by simp_all
        have "connect_calls (snd (call_tool reg conn ?st' nm' arguments')) = Suc (connect_calls ?st')"
          by (rule call_tool_attempts [OF absent l v])
        then show "connect_calls (snd (call_tool reg conn ?st' nm' arguments')) = Suc (Suc (connect_calls st))"
          by (simp add: calls)
      }
    }
  }
qed

theorem lazy_reconnect_witness:
  "call_tool ping_registry never_connects (serving (Some [(''db'', None), (''client'', None)])) ''ping'' None
     = (JObj [(''error'', JStr ''Database unavailable''), (''tool'', JStr ''ping''),
              (''hint'', JStr ''Ensure ArangoDB is reachable or check ARANGO_* environment variables.'')],
        (serving (Some [(''db'', None), (''client'', None)]))\<lparr>connect_calls := 1\<rparr>)
   \<and> connect_calls (snd (call_tool ping_registry always_connects
        (serving (Some [(''db'', None), (''client'', None)])) ''ping'' None)) = 1
   \<and> fst (call_tool ping_registry always_connects
        (serving (Some [(''db'', None), (''client'', None)])) ''ping'' None) = JObj [(''pong'', JBool True)]
   \<and> cached_db (get_request_context (snd (call_tool ping_registry always_connects
        (serving (Some [(''db'', None), (''client'', None)])) ''ping'' None))) = Some 2
   \<and> connect_calls (snd (call_tool ping_registry always_connects
        (snd (call_tool ping_registry always_connects
           (serving (Some [(''db'', None), (''client'', None)])) ''ping'' None)) ''ping'' None)) = 1
   \<and> cached_db (get_request_context (snd (call_tool ping_registry always_connects
        (serving None) ''ping'' None))) = None
   \<and> connect_calls (snd (call_tool ping_registry always_connects
        (snd (call_tool ping_registry always_connects (serving None) ''ping'' None)) ''ping'' None)) = 2
   \<and> connect_calls (snd (call_tool ping_registry always_connects
        (snd (call_tool ping_registry always_connects detached ''ping'' None)) ''ping'' None)) = 2"
proof -
  let ?st = "serving (Some [(''db'', None), (''client'', None)])"
  let ?sn = "serving None"
  have absent_d: "cached_db (get_request_context detached) = None"
    by (simp add: detached_def get_request_context_def cached_db_def)
  have succeeds_d: "always_connects (connect_calls detached) = Inr (1, 2)"
    by (simp add: always_connects_def)
  have nowhere_d: "safe_request_context detached = Some None
      \<or> safe_request_context detached = Some (Some (RequestContext None))"
    by (simp add: detached_def)
  have c0d: "connect_calls detached = 0"
    by (simp add: detached_def)
  have absent: "cached_db (get_request_context ?st) = None"
    by (simp add: serving_def get_request_context_def cached_db_def)
  have absent_n: "cached_db (get_request_context ?sn) = None"
    by (simp add: serving_def get_request_context_def cached_db_def)
  have fails: "never_connects (connect_calls ?st) =
      Inl (Exn ''ServerConnectionError'' [''ArangoClientError'', ''ArangoError'', ''Exception''] ''unreachable'')"
    by (simp add: never_connects_def)
  have succeeds: "always_connects (connect_calls ?st) = Inr (1, 2)"
    by (simp add: always_connects_def)
  have succeeds_n: "always_connects (connect_calls ?sn) = Inr (1, 2)"
    by (simp add: always_connects_def)
  have held: "safe_request_context ?st = Some (Some (RequestContext (Some [(''db'', None), (''client'', None)])))"
    by (simp add: serving_def)
  have nowhere: "safe_request_context ?sn = Some None
      \<or> safe_request_context ?sn = Some (Some (RequestContext None))"
    by (simp add: serving_def)
  have c0: "connect_calls ?st = 0" and c0n: "connect_calls ?sn = 0"
    by (simp_all add: serving_def)
  have next_ok: "map_of ping_registry ''ping'' = Some (sample_tool ''ping'')
      \<and> model_validate (model (sample_tool ''ping'')) (case None of None \<Rightarrow> [] | Some a \<Rightarrow> a) = Inr []"
    using ping_registry_lookup ping_validates by simp
  note never = lazy_reconnect [OF absent ping_registry_lookup ping_validates, of never_connects]
  note always = lazy_reconnect [OF absent ping_registry_lookup ping_validates, of always_connects]
  note always_n = lazy_reconnect [OF absent_n ping_registry_lookup ping_validates, of always_connects]
  note always_d = lazy_reconnect [OF absent_d ping_registry_lookup ping_validates, of always_connects]
  have a: "call_tool ping_registry never_connects ?st ''ping'' None
     = (JObj [(''error'', JStr ''Database unavailable''), (''tool'', JStr ''ping''),
              (''hint'', JStr ''Ensure ArangoDB is reachable or check ARANGO_* environment variables.'')],
        ?st\<lparr>connect_calls := 1\<rparr>)"
    using never fails c0 by simp
  have b: "connect_calls (snd (call_tool ping_registry always_connects ?st ''ping'' None)) = 1"
    using always c0 by simp
  have "fst (call_tool ping_registry always_connects ?st ''ping'' None)
      = fst (dispatch_handler (sample_tool ''ping'') ''ping'' 2 (model_dump []) ?st)"
    using always succeeds by blast
  then have p: "fst (call_tool ping_registry always_connects ?st ''ping'' None) = JObj [(''pong'', JBool True)]"
    by (simp add: ping_answer)
  have c: "cached_db (get_request_context (snd (call_tool ping_registry always_connects ?st ''ping'' None))) = Some 2"
    using always succeeds held by blast
  have d: "connect_calls (snd (call_tool ping_registry always_connects
        (snd (call_tool ping_registry always_connects ?st ''ping'' None)) ''ping'' None)) = Suc (connect_calls ?st)"
    using always succeeds held by blast
  have e: "cached_db (get_request_context (snd (call_tool ping_registry always_connects ?sn ''ping'' None))) = None"
    using always_n succeeds_n nowhere by blast
  have f: "connect_calls (snd (call_tool ping_registry always_connects
        (snd (call_tool ping_registry always_connects ?sn ''ping'' None)) ''ping'' None)) = Suc (Suc (connect_calls ?sn))"
    using always_n succeeds_n nowhere next_ok by blast
  have g: "connect_calls (snd (call_tool ping_registry always_connects
        (snd (call_tool ping_registry always_connects detached ''ping'' None)) ''ping'' None)) = Suc (Suc (connect_calls detached))"
    using always_d succeeds_d nowhere_d next_ok by blast
  show ?thesis using a b p c d e f g c0 c0n c0d by simp
qed

text \<open>
  When the attribute \<open>_safe_request_context\<close> was never set, the property hands out a
  new object at every read: the assignments under the comment
  \<open>Cache for subsequent calls\<close> go to an object that nothing keeps, and the dispatch
  right after connects again.
\<close>

lemma unset_context_reconnects:
  "cached_db (get_request_context fresh_server) = None
   \<and> connect_calls (snd (call_tool ping_registry always_connects fresh_server ''ping'' None)) = 1
   \<and> connect_calls (snd (call_tool ping_registry always_connects
        (snd (call_tool ping_registry always_connects fresh_server ''ping'' None)) ''ping'' None)) = 2"
  by (simp add: fresh_server_def ping_registry_def sample_tool_def ListCollectionsArgs_def
      ping_def always_connects_def call_tool_def get_request_context_def cached_db_def
      model_validate_def model_dump_def dispatch_handler_def invoke_handler_def call_def
      cache_connection_def)

subsection \<open>Exceptions raised by handlers\<close>

lemma call_wrapper_positional:
  "call (handle_errors func) h (Positional a) =
     Inr (case (if a = JNull then call func h (Kwargs []) else call func h (Positional a)) of
            Inr r \<Rightarrow> r | Inl e \<Rightarrow> error_result e)"
  by (simp add: call_def handle_errors_def wrapper_args_def split: sum.splits)

lemma call_wrapper_no_keywords:
  "call (handle_errors func) h (Kwargs []) =
     Inr (case call func h (Kwargs []) of Inr r \<Rightarrow> r | Inl e \<Rightarrow> error_result e)"
  by (simp add: call_def handle_errors_def wrapper_args_def split: sum.splits)

lemma call_wrapper_keywords:
  "binding (handle_errors func) (Kwargs kw) = None \<Longrightarrow> \<not> isl (call (handle_errors func) h (Kwargs kw))"
  by (simp add: call_def) (simp add: handle_errors_def split: sum.splits)

lemma isinstance_TypeError: "isinstance (TypeError m) ''TypeError''"
  by (simp add: isinstance_def TypeError_def)

lemma invoke_wrapped_never_raises: "\<not> isl (fst (invoke_handler (handle_errors func) h args))"
proof (cases "binding (handle_errors func) (Kwargs args)")
  case None
  then have "\<not> isl (call (handle_errors func) h (Kwargs args))"
    by (rule call_wrapper_keywords)
  then show ?thesis
    by (cases "call (handle_errors func) h (Kwargs args)") (simp_all add: invoke_handler_def)
next
  case (Some m)
  then have "call (handle_errors func) h (Kwargs args) = Inl (TypeError m)"
    by (simp add: call_def)
  then show ?thesis
    by (simp add: invoke_handler_def isinstance_TypeError call_wrapper_positional)
qed

lemma invoke_wrapped:
  assumes "''args'' \<notin> fst ` set args"
  shows "invoke_handler (handle_errors func) h args =
     (Inr (case call func h (if args = [] then Kwargs [] else Positional (JObj args)) of
             Inr r \<Rightarrow> r | Inl e \<Rightarrow> error_result e),
      if args = [] then [Kwargs []] else [Kwargs args, Positional (JObj args)])"
proof (cases args)
  case Nil
  then show ?thesis
    by (simp add: invoke_handler_def call_wrapper_no_keywords)
next
  case (Cons p ps)
  then have "fst p \<noteq> ''args''" using assms by auto
  then have "binding (handle_errors func) (Kwargs args) = Some ''wrapper() got an unexpected keyword argument''"
    using Cons by (simp add: handle_errors_def)
  then have "call (handle_errors func) h (Kwargs args) = Inl (TypeError ''wrapper() got an unexpected keyword argument'')"
    by (simp add: call_def)
  then show ?thesis
    using Cons by (simp add: invoke_handler_def isinstance_TypeError call_wrapper_positional)
qed

text \<open>
  Claim C4. A handler decorated with \<open>handle_errors\<close> never lets an exception out:
  whatever the decorated function raises comes back as a dictionary with exactly the
  keys \<open>error\<close> and \<open>type\<close>, both strings. An instance of \<open>KeyError\<close> gives
  \<open>"Missing required parameter: " + str(e)\<close> with type \<open>KeyError\<close>; otherwise an instance
  of \<open>ArangoError\<close> gives \<open>"Database operation failed: " + str(e)\<close> with type
  \<open>ArangoError\<close>; any other exception gives \<open>"Operation failed: " + str(e)\<close> with the name
  of its class as type. Dispatch answers with that dictionary. For any handler at all,
  an exception leaving \<open>_invoke_handler\<close> is answered with
  \<open>{"error": str(e), "tool": <name>}\<close>, and the cached context and the count of
  connection attempts stay as they were.
\<close>

theorem handler_exceptions_become_failures:
  "\<not> isl (fst (invoke_handler (handle_errors func) h args))
   \<and> (''args'' \<notin> fst ` set args \<and> handler tool_reg = handle_errors func \<longrightarrow>
        fst (dispatch_handler tool_reg nm h args st) =
          (case call func h (if args = [] then Kwargs [] else Positional (JObj args)) of
             Inr r \<Rightarrow> r | Inl e \<Rightarrow> error_result e))
   \<and> (isinstance e ''KeyError'' \<longrightarrow>
        error_result e = JObj [(''error'', JStr (''Missing required parameter: '' @ msg e)),
                               (''type'', JStr ''KeyError'')])
   \<and> (\<not> isinstance e ''KeyError'' \<and> isinstance e ''ArangoError'' \<longrightarrow>
        error_result e = JObj [(''error'', JStr (''Database operation failed: '' @ msg e)),
                               (''type'', JStr ''ArangoError'')])
   \<and> (\<not> isinstance e ''KeyError'' \<and> \<not> isinstance e ''ArangoError'' \<longrightarrow>
        error_result e = JObj [(''error'', JStr (''Operation failed: '' @ msg e)),
                               (''type'', JStr (cls e))])
   \<and> (\<exists>m t. error_result e = JObj [(''error'', JStr m), (''type'', JStr t)])
   \<and> (\<forall>e'. fst (invoke_handler (handler tool_reg) h args) = Inl e' \<longrightarrow>
        fst (dispatch_handler tool_reg nm h args st) = JObj [(''error'', JStr (msg e')), (''tool'', JStr nm)])
   \<and> safe_request_context (snd (dispatch_handler tool_reg nm h args st)) = safe_request_context st
   \<and> connect_calls (snd (dispatch_handler tool_reg nm h args st)) = connect_calls st"
proof -
  have a: "\<not> isl (fst (invoke_handler (handle_errors func) h args))"
    by (rule invoke_wrapped_never_raises)
  have b: "''args'' \<notin> fst ` set args \<and> handler tool_reg = handle_errors func \<longrightarrow>
        fst (dispatch_handler tool_reg nm h args st) =
          (case call func h (if args = [] then Kwargs [] else Positional (JObj args)) of
             Inr r \<Rightarrow> r | Inl e \<Rightarrow> error_result e)"
    by (simp add: dispatch_handler_def invoke_wrapped)
  have c: "\<exists>m t. error_result e = JObj [(''error'', JStr m), (''type'', JStr t)]"
    by (simp add: error_result_def)
  have d: "\<forall>e'. fst (invoke_handler (handler tool_reg) h args) = Inl e' \<longrightarrow>
        fst (dispatch_handler tool_reg nm h args st) = JObj [(''error'', JStr (msg e')), (''tool'', JStr nm)]"
    by (simp add: dispatch_handler_def split: prod.splits)
  show ?thesis
    using a b c d dispatch_handler_state [of tool_reg nm h args st]
    by (simp add: error_result_def)
qed

theorem handler_exceptions_become_failures_witness:
  "fst (dispatch_handler
          \<lparr>name = ''insert_doc'', description = [], model = InsertArgs,
           handler = handle_errors (raises (KeyError ''collection''))\<rparr>
          ''insert_doc'' 2 [(''document'', JObj [])] fresh_server)
     = JObj [(''error'', JStr (''Missing required parameter: '' @ quoted ''collection'')),
             (''type'', JStr ''KeyError'')]
   \<and> error_result (Exn ''DocumentInsertError'' [''ArangoServerError'', ''ArangoError'', ''Exception''] ''unique constraint violated'')
     = JObj [(''error'', JStr ''Database operation failed: unique constraint violated''),
             (''type'', JStr ''ArangoError'')]
   \<and> error_result (ValueError ''range() arg 3 must not be zero'')
     = JObj [(''error'', JStr ''Operation failed: range() arg 3 must not be zero''),
             (''type'', JStr ''ValueError'')]"
proof -
  let ?reg = "\<lparr>name = ''insert_doc'', description = [], model = InsertArgs,
           handler = handle_errors (raises (KeyError ''collection''))\<rparr>"
  have k: "isinstance (KeyError ''collection'') ''KeyError''"
    by (simp add: isinstance_def KeyError_def)
  have pre: "''args'' \<notin> fst ` set [(''document'', JObj [])] \<and> handler ?reg = handle_errors (raises (KeyError ''collection''))"
    by simp
  have one: "fst (dispatch_handler ?reg ''insert_doc'' 2 [(''document'', JObj [])] fresh_server)
     = error_result (KeyError ''collection'')"
    using pre handler_exceptions_become_failures
      [of "raises (KeyError ''collection'')" 2 "[(''document'', JObj [])]" ?reg "''insert_doc''" fresh_server]
    by (simp add: raises_def call_def)
  have two: "error_result (KeyError ''collection'')
     = JObj [(''error'', JStr (''Missing required parameter: '' @ msg (KeyError ''collection''))),
             (''type'', JStr ''KeyError'')]"
    using k handler_exceptions_become_failures [where e = "KeyError ''collection''"] by blast
  have three: "error_result (Exn ''DocumentInsertError'' [''ArangoServerError'', ''ArangoError'', ''Exception''] ''unique constraint violated'')
     = JObj [(''error'', JStr ''Database operation failed: unique constraint violated''),
             (''type'', JStr ''ArangoError'')]"
    using handler_exceptions_become_failures
       [where e = "Exn ''DocumentInsertError'' [''ArangoServerError'', ''ArangoError'', ''Exception''] ''unique constraint violated''"]
    by (simp add: isinstance_def)
  have four: "error_result (ValueError ''range() arg 3 must not be zero'')
     = JObj [(''error'', JStr ''Operation failed: range() arg 3 must not be zero''),
             (''type'', JStr ''ValueError'')]"
    using handler_exceptions_become_failures [where e = "ValueError ''range() arg 3 must not be zero''"]
    by (simp add: isinstance_def ValueError_def)
  show ?thesis
    using one two three four by (simp add: KeyError_def)
qed

subsection \<open>The two calling conventions\<close>

text \<open>
  Claim C9, as stated, fails: the fallback to \<open>handler(db, args)\<close> is not limited to a
  signature mismatch. The handler below accepts the keyword call, its body raises a
  \<open>TypeError\<close> of its own, and \<open>_invoke_handler\<close> calls it a second time, positionally.
\<close>

theorem fallback_counterexample:
  "binding type_error_inside (Kwargs []) = None
   \<and> invoke_handler type_error_inside 0 []
       = (Inr (JStr ''second call''), [Kwargs [], Positional (JObj [])])"
  by (simp add: type_error_inside_def invoke_handler_def call_def isinstance_TypeError)

text \<open>
  Claim C9, amended. \<open>_invoke_handler\<close> first makes the keyword call
  \<open>handler(db, **args)\<close> and makes at most one more call, \<open>handler(db, args)\<close>. The
  second call is made exactly when the first raised an instance of \<open>TypeError\<close>, which
  a signature mismatch always does and the body of the handler may do as well; no
  other exception leads to it. The outcome of the last call made, a value or an
  exception, is the outcome of \<open>_invoke_handler\<close>.
\<close>

theorem fallback_rule:
  "hd (snd (invoke_handler f h args)) = Kwargs args
   \<and> (snd (invoke_handler f h args) = [Kwargs args, Positional (JObj args)]
        \<or> snd (invoke_handler f h args) = [Kwargs args])
   \<and> ((snd (invoke_handler f h args) = [Kwargs args, Positional (JObj args)])
        = (\<exists>e. call f h (Kwargs args) = Inl e \<and> isinstance e ''TypeError''))
   \<and> (\<forall>m. binding f (Kwargs args) = Some m \<longrightarrow>
        invoke_handler f h args = (call f h (Positional (JObj args)), [Kwargs args, Positional (JObj args)]))
   \<and> (snd (invoke_handler f h args) = [Kwargs args, Positional (JObj args)] \<longrightarrow>
        fst (invoke_handler f h args) = call f h (Positional (JObj args)))
   \<and> (snd (invoke_handler f h args) = [Kwargs args] \<longrightarrow>
        fst (invoke_handler f h args) = call f h (Kwargs args))"
proof (cases "call f h (Kwargs args)")
  case (Inr r)
  then have "\<forall>m. binding f (Kwargs args) \<noteq> Some m"
    by (auto simp: call_def split: option.splits)
  with Inr show ?thesis by (simp add: invoke_handler_def)
next
  case (Inl e)
  show ?thesis
  proof (cases "isinstance e ''TypeError''")
    case True
    with Inl show ?thesis by (simp add: invoke_handler_def)
  next
    case False
    then have "\<forall>m. binding f (Kwargs args) \<noteq> Some m"
      using Inl by (auto simp: call_def isinstance_TypeError split: option.splits)
    with Inl False show ?thesis by (simp add: invoke_handler_def)
  qed
qed

theorem fallback_rule_witness:
  "invoke_handler (handle_errors ping) 2 [(''collection'', JStr ''users'')]
     = (Inr (JObj [(''pong'', JBool True)]),
        [Kwargs [(''collection'', JStr ''users'')], Positional (JObj [(''collection'', JStr ''users'')])])
   \<and> invoke_handler ping 2 [(''collection'', JStr ''users'')]
     = (Inr (JObj [(''pong'', JBool True)]), [Kwargs [(''collection'', JStr ''users'')]])"
proof -
  let ?args = "[(''collection'', JStr ''users'')]"
  have m: "binding (handle_errors ping) (Kwargs ?args) = Some ''wrapper() got an unexpected keyword argument''"
    by (simp add: handle_errors_def)
  have one: "invoke_handler (handle_errors ping) 2 ?args
      = (call (handle_errors ping) 2 (Positional (JObj ?args)), [Kwargs ?args, Positional (JObj ?args)])"
    using m fallback_rule [of "handle_errors ping" 2 ?args] by blast
  have s: "snd (invoke_handler ping 2 ?args) = [Kwargs ?args]"
    by (simp add: invoke_handler_def call_def ping_def)
  have two: "fst (invoke_handler ping 2 ?args) = call ping 2 (Kwargs ?args)"
    using s fallback_rule [of ping 2 ?args] by blast
  have "invoke_handler ping 2 ?args = (call ping 2 (Kwargs ?args), [Kwargs ?args])"
    using s two by (simp add: prod_eq_iff)
  then show ?thesis
    using one by (simp add: call_wrapper_positional) (simp add: call_def ping_def)
qed

subsection \<open>Field aliases\<close>

lemma lookup_field_alias:
  "field_alias f = Some a \<Longrightarrow> map_of data a = Some va \<Longrightarrow> lookup_field by_name f data = Some (a, va)"
  by (simp add: lookup_field_def)

lemma BackupArgs_both_keys:
  assumes "map_of data ''outputDir'' = Some (JStr x)"
    and "map_of data ''collection'' = None" and "map_of data ''collections'' = None"
    and "map_of data ''docLimit'' = None" and "map_of data ''doc_limit'' = None"
  shows "model_validate BackupArgs data =
           Inr [(''output_dir'', JStr x), (''collection'', JNull), (''collections'', JNull), (''doc_limit'', JNull)]"
  using assms
  by (simp add: model_validate_def BackupArgs_def validate_field_def lookup_field_def
      optional_def str_type_def)

lemma py_or_None: "py_or JNull b = b"
  by (simp add: py_or_def)

lemma handle_backup_output_dir:
  "call (handle_backup bk) h (Positional (JObj [(''output_dir'', JStr x)])) = bk h (py_or (JStr x) JNull) JNull JNull"
  by (simp add: call_def handle_backup_def wrapper_args_def dict_get_def Let_def py_or_None)

text \<open>
  Claim C8. For any model and any field that declares an alias: when the raw arguments
  hold both the alias and the field's own name, the value under the alias is the one
  read, and the outcome of the field's validation depends on that value alone. For the
  backup tool, a request that gives \<open>outputDir\<close> and \<open>output_dir\<close> (both strings, no other
  field) is accepted, the validated arguments are \<open>{"output_dir": <alias value>}\<close>, and
  the decorated \<open>handle_backup\<close> is called with exactly these arguments, so that the
  backup routine receives the alias value (or \<open>None\<close> when that value is the empty string).
\<close>

theorem alias_takes_precedence:
  "(field_alias f = Some a \<and> map_of data a = Some va \<and> map_of data (field_name f) = Some vn \<longrightarrow>
      lookup_field by_name f data = Some (a, va)
      \<and> validate_field by_name data f =
          (case validator f va of
             Inl (t, m) \<Rightarrow> Inl \<lparr>vtype = t, loc = a, vmsg = m, vinput = va\<rparr>
           | Inr w \<Rightarrow> Inr (field_name f, w)))
   \<and> (map_of data ''outputDir'' = Some (JStr x) \<and> map_of data ''output_dir'' = Some (JStr y)
      \<and> map_of data ''collection'' = None \<and> map_of data ''collections'' = None
      \<and> map_of data ''docLimit'' = None \<and> map_of data ''doc_limit'' = None \<longrightarrow>
        model_validate BackupArgs data =
          Inr [(''output_dir'', JStr x), (''collection'', JNull), (''collections'', JNull), (''doc_limit'', JNull)]
        \<and> (map_of reg nm = Some tool_reg \<and> model tool_reg = BackupArgs
            \<and> handler tool_reg = handle_errors (handle_backup bk)
            \<and> cached_db (get_request_context st) = Some h \<longrightarrow>
             call_tool reg conn st nm (Some data) =
               ((case bk h (py_or (JStr x) JNull) JNull JNull of Inr r \<Rightarrow> r | Inl e \<Rightarrow> error_result e),
                st\<lparr>invocations := invocations st @
                     [(nm, Kwargs [(''output_dir'', JStr x)]),
                      (nm, Positional (JObj [(''output_dir'', JStr x)]))]\<rparr>)))"
proof (intro conjI impI)
  assume a: "field_alias f = Some a \<and> map_of data a = Some va \<and> map_of data (field_name f) = Some vn"
  then show l: "lookup_field by_name f data = Some (a, va)"
    by (simp add: lookup_field_alias)
  show "validate_field by_name data f =
          (case validator f va of
             Inl (t, m) \<Rightarrow> Inl \<lparr>vtype = t, loc = a, vmsg = m, vinput = va\<rparr>
           | Inr w \<Rightarrow> Inr (field_name f, w))"
    by (simp add: validate_field_def l)
next
  assume b: "map_of data ''outputDir'' = Some (JStr x) \<and> map_of data ''output_dir'' = Some (JStr y)
      \<and> map_of data ''collection'' = None \<and> map_of data ''collections'' = None
      \<and> map_of data ''docLimit'' = None \<and> map_of data ''doc_limit'' = None"
  then show v: "model_validate BackupArgs data =
          Inr [(''output_dir'', JStr x), (''collection'', JNull), (''collections'', JNull), (''doc_limit'', JNull)]"
    by (simp add: BackupArgs_both_keys)
  assume c: "map_of reg nm = Some tool_reg \<and> model tool_reg = BackupArgs
            \<and> handler tool_reg = handle_errors (handle_backup bk)
            \<and> cached_db (get_request_context st) = Some h"
  have d: "model_dump [(''output_dir'', JStr x), (''collection'', JNull), (''collections'', JNull), (''doc_limit'', JNull)]
        = [(''output_dir'', JStr x)]"
    by (simp add: model_dump_def)
  have e: "call_tool reg conn st nm (Some data) = dispatch_handler tool_reg nm h [(''output_dir'', JStr x)] st"
    using c v d call_tool_cached_dispatch [of st h reg nm tool_reg "Some data" _ conn] by simp
  have f: "invoke_handler (handle_errors (handle_backup bk)) h [(''output_dir'', JStr x)] =
      (Inr (case bk h (py_or (JStr x) JNull) JNull JNull of Inr r \<Rightarrow> r | Inl e \<Rightarrow> error_result e),
       [Kwargs [(''output_dir'', JStr x)], Positional (JObj [(''output_dir'', JStr x)])])"
    by (simp add: invoke_wrapped handle_backup_output_dir)
  show "call_tool reg conn st nm (Some data) =
               ((case bk h (py_or (JStr x) JNull) JNull JNull of Inr r \<Rightarrow> r | Inl e \<Rightarrow> error_result e),
                st\<lparr>invocations := invocations st @
                     [(nm, Kwargs [(''output_dir'', JStr x)]),
                      (nm, Positional (JObj [(''output_dir'', JStr x)]))]\<rparr>)"
    using c by (simp add: e dispatch_handler_def f)
qed

theorem alias_takes_precedence_witness:
  "call_tool backup_registry never_connects (serving (Some [(''db'', Some 2), (''client'', Some 1)]))
     ''arango_backup'' (Some [(''output_dir'', JStr ''backups/by_name''), (''outputDir'', JStr ''backups/by_alias'')])
   = (JObj [(''output_dir'', JStr ''backups/by_alias''), (''collections'', JNull), (''doc_limit'', JNull)],
      (serving (Some [(''db'', Some 2), (''client'', Some 1)]))
        \<lparr>invocations := [(''arango_backup'', Kwargs [(''output_dir'', JStr ''backups/by_alias'')]),
                          (''arango_backup'', Positional (JObj [(''output_dir'', JStr ''backups/by_alias'')]))]\<rparr>)"
proof -
  let ?data = "[(''output_dir'', JStr ''backups/by_name''), (''outputDir'', JStr ''backups/by_alias'')]"
  let ?st = "serving (Some [(''db'', Some 2), (''client'', Some 1)])"
  let ?reg = "\<lparr>name = ''arango_backup'', description = ''Backup collections to JSON files.'',
                   model = BackupArgs, handler = handle_errors (handle_backup echo_backup)\<rparr>"
  have keys: "map_of ?data ''outputDir'' = Some (JStr ''backups/by_alias'')
      \<and> map_of ?data ''output_dir'' = Some (JStr ''backups/by_name'')
      \<and> map_of ?data ''collection'' = None \<and> map_of ?data ''collections'' = None
      \<and> map_of ?data ''docLimit'' = None \<and> map_of ?data ''doc_limit'' = None"
    by simp
  have tool: "map_of backup_registry ''arango_backup'' = Some ?reg \<and> model ?reg = BackupArgs
            \<and> handler ?reg = handle_errors (handle_backup echo_backup)
            \<and> cached_db (get_request_context ?st) = Some 2"
    by (simp add: backup_registry_def serving_def get_request_context_def cached_db_def)
  have "call_tool backup_registry never_connects ?st ''arango_backup'' (Some ?data) =
      ((case echo_backup 2 (py_or (JStr ''backups/by_alias'') JNull) JNull JNull of
          Inr r \<Rightarrow> r | Inl e \<Rightarrow> error_result e),
       ?st\<lparr>invocations := invocations ?st @
             [(''arango_backup'', Kwargs [(''output_dir'', JStr ''backups/by_alias'')]),
              (''arango_backup'', Positional (JObj [(''output_dir'', JStr ''backups/by_alias'')]))]\<rparr>)"
    using keys tool
      alias_takes_precedence [where data = ?data and x = "''backups/by_alias''" and y = "''backups/by_name''"
        and reg = backup_registry and nm = "''arango_backup''" and tool_reg = ?reg and bk = echo_backup
        and st = ?st and h = 2 and conn = never_connects]
    by blast
  then show ?thesis
    by (simp add: echo_backup_def py_or_def serving_def)
qed

subsection \<open>Argument validation at dispatch\<close>

lemma lefts_member: "x \<in> set xs \<Longrightarrow> f x = Inl v \<Longrightarrow> v \<in> set (lefts (map f xs))"
proof (induction xs)
  case Nil
  then show ?case by simp
next
  case (Cons y ys)
  then show ?case by (cases "f y") auto
qed

lemma model_validate_rejects:
  assumes "f \<in> set (model_fields m)" and "validate_field (populate_by_name m) data f = Inl v"
  shows "model_validate m data = Inl (lefts (map (validate_field (populate_by_name m) data) (model_fields m)))
         \<and> v \<in> set (lefts (map (validate_field (populate_by_name m) data) (model_fields m)))"
proof -
  have "v \<in> set (lefts (map (validate_field (populate_by_name m) data) (model_fields m)))"
    using assms by (rule lefts_member)
  moreover from this have "lefts (map (validate_field (populate_by_name m) data) (model_fields m)) \<noteq> []"
    by auto
  ultimately show ?thesis by (simp add: model_validate_def Let_def)
qed

lemma call_tool_rejects:
  assumes "map_of reg nm = Some tool_reg"
    and "f \<in> set (model_fields (model tool_reg))"
    and "validate_field (populate_by_name (model tool_reg)) (case arguments of None \<Rightarrow> [] | Some a \<Rightarrow> a) f = Inl v"
  shows "\<exists>details. call_tool reg conn st nm arguments =
           (JObj [(''error'', JStr ''ValidationError''), (''tool'', JStr nm),
                  (''details'', JList details)], st)
         \<and> JObj [(''type'', JStr (vtype v)), (''loc'', JList [JStr (loc v)]),
                 (''msg'', JStr (vmsg v)), (''input'', vinput v)] \<in> set details"
proof -
  let ?ve = "lefts (map (validate_field (populate_by_name (model tool_reg))
                (case arguments of None \<Rightarrow> [] | Some a \<Rightarrow> a)) (model_fields (model tool_reg)))"
  have rejected: "model_validate (model tool_reg) (case arguments of None \<Rightarrow> [] | Some a \<Rightarrow> a) = Inl ?ve"
    and listed: "v \<in> set ?ve"
    using model_validate_rejects [OF assms(2,3)] by simp_all
  have "call_tool reg conn st nm arguments =
           (JObj [(''error'', JStr ''ValidationError''), (''tool'', JStr nm),
                  (''details'', JList (map violation_json ?ve))], st)"
    using assms(1) rejected by (simp add: call_tool_def)
  moreover have "violation_json v \<in> set (map violation_json ?ve)"
    using listed by simp
  then have "JObj [(''type'', JStr (vtype v)), (''loc'', JList [JStr (loc v)]),
                 (''msg'', JStr (vmsg v)), (''input'', vinput v)] \<in> set (map violation_json ?ve)"
    by (simp add: violation_json_def)
  ultimately show ?thesis by blast
qed

lemma lookup_field_missing:
  assumes "map_of data (field_name f) = None" and "\<forall>a. field_alias f = Some a \<longrightarrow> map_of data a = None"
  shows "lookup_field by_name f data = None"
  using assms by (auto simp: lookup_field_def split: option.splits)

lemma validate_field_rejects:
  assumes "lookup_field by_name f data = Some (k, v)" and "validator f v = Inl (t, m)"
  shows "validate_field by_name data f = Inl \<lparr>vtype = t, loc = k, vmsg = m, vinput = v\<rparr>"
  using assms by (simp add: validate_field_def)

lemma str_type_rejects:
  "(\<forall>s. v \<noteq> JStr s) \<Longrightarrow> str_type v = Inl (''string_type'', ''Input should be a valid string'')"
  by (cases v) (simp_all add: str_type_def)

lemma dict_type_rejects:
  "(\<forall>d. v \<noteq> JObj d) \<Longrightarrow> dict_type v = Inl (''dict_type'', ''Input should be a valid dictionary'')"
  by (cases v) (simp_all add: dict_type_def)

lemma insert_registry_lookup:
  "map_of insert_registry ''insert_doc'' =
     Some \<lparr>name = ''insert_doc'', description = ''Insert a document into a collection.'',
           model = InsertArgs, handler = ping\<rparr>"
  by (simp add: insert_registry_def)

lemma str_as_int_five: "str_as_int ''5'' = Some 5"
  by (simp add: str_as_int_def is_space_def is_digit_def digits_value_def Let_def)

lemma BackupArgs_doc_limit_string:
  "model_validate BackupArgs [(''docLimit'', JStr ''5'')] =
     Inr [(''output_dir'', JNull), (''collection'', JNull), (''collections'', JNull), (''doc_limit'', JInt 5)]"
  by (simp add: model_validate_def BackupArgs_def validate_field_def lookup_field_def
      optional_def int_ge_def int_type_def str_as_int_five)

lemma handle_backup_doc_limit:
  "call (handle_backup bk) h (Positional (JObj [(''doc_limit'', JInt 5)])) = bk h JNull JNull (JInt 5)"
  by (simp add: call_def handle_backup_def wrapper_args_def dict_get_def Let_def py_or_def)

text \<open>
  Claim C2, as stated, fails for wrong-typed values: the models are plain
  \<open>BaseModel\<close>s, which pydantic validates in lax mode. The backup tool is given the
  string \<open>"5"\<close> for its integer field \<open>docLimit\<close>, with no handle cached: the answer is
  no \<open>ValidationError\<close>, a connection is made, and the handler is called with the
  integer 5.
\<close>

theorem lax_validation_counterexample:
  "call_tool backup_registry always_connects (serving (Some [])) ''arango_backup''
       (Some [(''docLimit'', JStr ''5'')])
   = (JObj [(''output_dir'', JNull), (''collections'', JNull), (''doc_limit'', JInt 5)],
      \<lparr>safe_request_context =
         Some (Some (RequestContext (Some [(''db'', Some 2), (''client'', Some 1)]))),
       connect_calls = 1,
       invocations = [(''arango_backup'', Kwargs [(''doc_limit'', JInt 5)]),
                      (''arango_backup'', Positional (JObj [(''doc_limit'', JInt 5)]))]\<rparr>)"
proof -
  let ?st = "serving (Some [])"
  let ?reg = "\<lparr>name = ''arango_backup'', description = ''Backup collections to JSON files.'',
                   model = BackupArgs, handler = handle_errors (handle_backup echo_backup)\<rparr>"
  have absent: "cached_db (get_request_context ?st) = None"
    by (simp add: serving_def get_request_context_def cached_db_def)
  have tool: "map_of backup_registry ''arango_backup'' = Some ?reg"
    by (simp add: backup_registry_def)
  have valid: "model_validate (model ?reg) (case Some [(''docLimit'', JStr ''5'')] of None \<Rightarrow> [] | Some a \<Rightarrow> a)
      = Inr [(''output_dir'', JNull), (''collection'', JNull), (''collections'', JNull), (''doc_limit'', JInt 5)]"
    by (simp add: BackupArgs_doc_limit_string)
  have connect: "always_connects (connect_calls ?st) = Inr (1, 2)"
    by (simp add: always_connects_def)
  have dump: "model_dump [(''output_dir'', JNull), (''collection'', JNull), (''collections'', JNull), (''doc_limit'', JInt 5)]
      = [(''doc_limit'', JInt 5)]"
    by (simp add: model_dump_def)
  have run: "invoke_handler (handle_errors (handle_backup echo_backup)) 2 [(''doc_limit'', JInt 5)] =
      (Inr (JObj [(''output_dir'', JNull), (''collections'', JNull), (''doc_limit'', JInt 5)]),
       [Kwargs [(''doc_limit'', JInt 5)], Positional (JObj [(''doc_limit'', JInt 5)])])"
    by (simp add: invoke_wrapped handle_backup_doc_limit echo_backup_def)
  have "call_tool backup_registry always_connects ?st ''arango_backup'' (Some [(''docLimit'', JStr ''5'')])
      = dispatch_handler ?reg ''arango_backup'' 2 [(''doc_limit'', JInt 5)]
          (cache_connection 1 2 (?st\<lparr>connect_calls := Suc (connect_calls ?st)\<rparr>))"
    using call_tool_connects [where conn = always_connects and st = ?st, OF absent tool valid connect]
    by (simp only: dump)
  then show ?thesis
    by (simp add: dispatch_handler_def run cache_connection_def serving_def)
qed

text \<open>
  Claim C2, amended. For a registered tool and a field of its argument model: when the
  field is required and the raw arguments hold neither its name nor its alias, or when
  the validation of the field's type rejects the value supplied for it, \<open>call_tool\<close>
  answers \<open>{"error": "ValidationError", "tool": <name>, "details": [...]}\<close> and the
  server state is unchanged: no connection attempt is made and no handler is called.
  The details list a violation of type \<open>missing\<close> for the field in the first case, and
  a violation located at the key that was read in the second. Rejected are, for a
  \<open>str\<close> field, every value that is not a string, and for a \<open>Dict\<close> field, every
  value that is not a dictionary, with the violations \<open>string_type\<close> and \<open>dict_type\<close>.
\<close>

theorem validation_failure_reported:
  assumes "map_of reg nm = Some tool_reg"
    and "f \<in> set (model_fields (model tool_reg))"
    and "data = (case arguments of None \<Rightarrow> [] | Some a \<Rightarrow> a)"
  shows "(field_default f = None \<and> map_of data (field_name f) = None
          \<and> (\<forall>a. field_alias f = Some a \<longrightarrow> map_of data a = None) \<longrightarrow>
          (\<exists>details. call_tool reg conn st nm arguments =
             (JObj [(''error'', JStr ''ValidationError''), (''tool'', JStr nm),
                    (''details'', JList details)], st)
           \<and> JObj [(''type'', JStr ''missing''),
                   (''loc'', JList [JStr (case field_alias f of None \<Rightarrow> field_name f | Some a \<Rightarrow> a)]),
                   (''msg'', JStr ''Field required''), (''input'', JObj data)] \<in> set details))
       \<and> (\<forall>k v. lookup_field (populate_by_name (model tool_reg)) f data = Some (k, v)
             \<and> isl (validator f v) \<longrightarrow>
          (\<exists>details. call_tool reg conn st nm arguments =
             (JObj [(''error'', JStr ''ValidationError''), (''tool'', JStr nm),
                    (''details'', JList details)], st)
           \<and> (\<exists>t path m input.
                 JObj [(''type'', JStr t), (''loc'', JList (JStr k # path)),
                       (''msg'', JStr m), (''input'', input)] \<in> set details)))
       \<and> (\<forall>k v. lookup_field (populate_by_name (model tool_reg)) f data = Some (k, v)
             \<and> validator f = str_type \<and> (\<forall>s. v \<noteq> JStr s) \<longrightarrow>
          (\<exists>details. call_tool reg conn st nm arguments =
             (JObj [(''error'', JStr ''ValidationError''), (''tool'', JStr nm),
                    (''details'', JList details)], st)
           \<and> JObj [(''type'', JStr ''string_type''), (''loc'', JList [JStr k]),
                   (''msg'', JStr ''Input should be a valid string''), (''input'', v)] \<in> set details))
       \<and> (\<forall>k v. lookup_field (populate_by_name (model tool_reg)) f data = Some (k, v)
             \<and> validator f = dict_type \<and> (\<forall>d. v \<noteq> JObj d) \<longrightarrow>
          (\<exists>details. call_tool reg conn st nm arguments =
             (JObj [(''error'', JStr ''ValidationError''), (''tool'', JStr nm),
                    (''details'', JList details)], st)
           \<and> JObj [(''type'', JStr ''dict_type''), (''loc'', JList [JStr k]),
                   (''msg'', JStr ''Input should be a valid dictionary''), (''input'', v)] \<in> set details))"
proof -
  have rejects: "\<exists>details. call_tool reg conn st nm arguments =
             (JObj [(''error'', JStr ''ValidationError''), (''tool'', JStr nm),
                    (''details'', JList details)], st)
           \<and> JObj [(''type'', JStr (vtype w)), (''loc'', JList [JStr (loc w)]),
                   (''msg'', JStr (vmsg w)), (''input'', vinput w)] \<in> set details"
    if "validate_field (populate_by_name (model tool_reg)) data f = Inl w" for w
    using that call_tool_rejects [OF assms(1,2), of arguments w conn st] assms(3) by simp
  have missing: "\<exists>details. call_tool reg conn st nm arguments =
             (JObj [(''error'', JStr ''ValidationError''), (''tool'', JStr nm),
                    (''details'', JList details)], st)
           \<and> JObj [(''type'', JStr ''missing''),
                   (''loc'', JList [JStr (case field_alias f of None \<Rightarrow> field_name f | Some a \<Rightarrow> a)]),
                   (''msg'', JStr ''Field required''), (''input'', JObj data)] \<in> set details"
    if a: "field_default f = None \<and> map_of data (field_name f) = None
             \<and> (\<forall>a. field_alias f = Some a \<longrightarrow> map_of data a = None)"
  proof -
    have "lookup_field (populate_by_name (model tool_reg)) f data = None"
      using a by (simp add: lookup_field_missing)
    with a have "validate_field (populate_by_name (model tool_reg)) data f =
        Inl \<lparr>vtype = ''missing'',
             loc = (case field_alias f of None \<Rightarrow> field_name f | Some a \<Rightarrow> a),
             vmsg = ''Field required'', vinput = JObj data\<rparr>"
      by (simp add: validate_field_def)
    from rejects [OF this] show ?thesis by simp
  qed
  have located: "\<exists>details. call_tool reg conn st nm arguments =
             (JObj [(''error'', JStr ''ValidationError''), (''tool'', JStr nm),
                    (''details'', JList details)], st)
           \<and> JObj [(''type'', JStr t), (''loc'', JList [JStr k]),
                   (''msg'', JStr m), (''input'', v)] \<in> set details"
    if "lookup_field (populate_by_name (model tool_reg)) f data = Some (k, v)"
      and "validator f v = Inl (t, m)" for k v t m
    using rejects [OF validate_field_rejects [OF that]] by simp
  have wrong: "\<exists>details. call_tool reg conn st nm arguments =
             (JObj [(''error'', JStr ''ValidationError''), (''tool'', JStr nm),
                    (''details'', JList details)], st)
           \<and> (\<exists>t path m input.
                 JObj [(''type'', JStr t), (''loc'', JList (JStr k # path)),
                       (''msg'', JStr m), (''input'', input)] \<in> set details)"
    if l: "lookup_field (populate_by_name (model tool_reg)) f data = Some (k, v)
             \<and> isl (validator f v)" for k v
  proof -
    from l obtain t m where "validator f v = Inl (t, m)"
      by (cases "validator f v") auto
    with l have "\<exists>details. call_tool reg conn st nm arguments =
             (JObj [(''error'', JStr ''ValidationError''), (''tool'', JStr nm),
                    (''details'', JList details)], st)
           \<and> JObj [(''type'', JStr t), (''loc'', JList [JStr k]),
                   (''msg'', JStr m), (''input'', v)] \<in> set details"
      by (intro located) simp_all
    then show ?thesis by blast
  qed
  have not_str: "\<exists>details. call_tool reg conn st nm arguments =
             (JObj [(''error'', JStr ''ValidationError''), (''tool'', JStr nm),
                    (''details'', JList details)], st)
           \<and> JObj [(''type'', JStr ''string_type''), (''loc'', JList [JStr k]),
                   (''msg'', JStr ''Input should be a valid string''), (''input'', v)] \<in> set details"
    if l: "lookup_field (populate_by_name (model tool_reg)) f data = Some (k, v)
             \<and> validator f = str_type \<and> (\<forall>s. v \<noteq> JStr s)" for k v
  proof -
    have "validator f v = Inl (''string_type'', ''Input should be a valid string'')"
      using l by (simp add: str_type_rejects)
    with l show ?thesis by (intro located) simp_all
  qed
  have not_dict: "\<exists>details. call_tool reg conn st nm arguments =
             (JObj [(''error'', JStr ''ValidationError''), (''tool'', JStr nm),
                    (''details'', JList details)], st)
           \<and> JObj [(''type'', JStr ''dict_type''), (''loc'', JList [JStr k]),
                   (''msg'', JStr ''Input should be a valid dictionary''), (''input'', v)] \<in> set details"
    if l: "lookup_field (populate_by_name (model tool_reg)) f data = Some (k, v)
             \<and> validator f = dict_type \<and> (\<forall>d. v \<noteq> JObj d)" for k v
  proof -
    have "validator f v = Inl (''dict_type'', ''Input should be a valid dictionary'')"
      using l by (simp add: dict_type_rejects)
    with l show ?thesis by (intro located) simp_all
  qed
  show ?thesis
    using missing wrong not_str not_dict by (intro conjI allI impI)
qed

theorem validation_failure_reported_witness:
  "(\<exists>details. call_tool insert_registry always_connects fresh_server ''insert_doc'' (Some [(''document'', JObj [])]) =
       (JObj [(''error'', JStr ''ValidationError''), (''tool'', JStr ''insert_doc''),
              (''details'', JList details)], fresh_server)
     \<and> JObj [(''type'', JStr ''missing''), (''loc'', JList [JStr ''collection'']),
             (''msg'', JStr ''Field required''), (''input'', JObj [(''document'', JObj [])])] \<in> set details)
   \<and> (\<exists>details. call_tool insert_registry always_connects fresh_server ''insert_doc''
          (Some [(''collection'', JInt 5), (''document'', JObj [])]) =
       (JObj [(''error'', JStr ''ValidationError''), (''tool'', JStr ''insert_doc''),
              (''details'', JList details)], fresh_server)
     \<and> JObj [(''type'', JStr ''string_type''), (''loc'', JList [JStr ''collection'']),
             (''msg'', JStr ''Input should be a valid string''), (''input'', JInt 5)] \<in> set details)
   \<and> (\<exists>details. call_tool insert_registry always_connects fresh_server ''insert_doc''
          (Some [(''collection'', JStr ''users''), (''document'', JList [])]) =
       (JObj [(''error'', JStr ''ValidationError''), (''tool'', JStr ''insert_doc''),
              (''details'', JList details)], fresh_server)
     \<and> JObj [(''type'', JStr ''dict_type''), (''loc'', JList [JStr ''document'']),
             (''msg'', JStr ''Input should be a valid dictionary''), (''input'', JList [])] \<in> set details)"
proof -
  let ?c = "\<lparr>field_name = ''collection'', field_alias = None, validator = str_type, field_default = None\<rparr>"
  let ?d = "\<lparr>field_name = ''document'', field_alias = None, validator = dict_type, field_default = None\<rparr>"
  let ?reg = "\<lparr>name = ''insert_doc'', description = ''Insert a document into a collection.'',
           model = InsertArgs, handler = ping\<rparr>"
  have mem_c: "?c \<in> set (model_fields (model ?reg))"
    by (simp add: InsertArgs_def)
  have mem_d: "?d \<in> set (model_fields (model ?reg))"
    by (simp add: InsertArgs_def)
  have one: "\<exists>details. call_tool insert_registry always_connects fresh_server ''insert_doc'' (Some [(''document'', JObj [])]) =
       (JObj [(''error'', JStr ''ValidationError''), (''tool'', JStr ''insert_doc''),
              (''details'', JList details)], fresh_server)
     \<and> JObj [(''type'', JStr ''missing''), (''loc'', JList [JStr ''collection'']),
             (''msg'', JStr ''Field required''), (''input'', JObj [(''document'', JObj [])])] \<in> set details"
    using validation_failure_reported [OF insert_registry_lookup mem_c,
        of "[(''document'', JObj [])]" "Some [(''document'', JObj [])]" always_connects fresh_server]
    by simp
  have two: "\<exists>details. call_tool insert_registry always_connects fresh_server ''insert_doc''
          (Some [(''collection'', JInt 5), (''document'', JObj [])]) =
       (JObj [(''error'', JStr ''ValidationError''), (''tool'', JStr ''insert_doc''),
              (''details'', JList details)], fresh_server)
     \<and> JObj [(''type'', JStr ''string_type''), (''loc'', JList [JStr ''collection'']),
             (''msg'', JStr ''Input should be a valid string''), (''input'', JInt 5)] \<in> set details"
    using validation_failure_reported [OF insert_registry_lookup mem_c,
        of "[(''collection'', JInt 5), (''document'', JObj [])]"
           "Some [(''collection'', JInt 5), (''document'', JObj [])]" always_connects fresh_server]
    by (simp add: InsertArgs_def lookup_field_def)
  have three: "\<exists>details. call_tool insert_registry always_connects fresh_server ''insert_doc''
          (Some [(''collection'', JStr ''users''), (''document'', JList [])]) =
       (JObj [(''error'', JStr ''ValidationError''), (''tool'', JStr ''insert_doc''),
              (''details'', JList details)], fresh_server)
     \<and> JObj [(''type'', JStr ''dict_type''), (''loc'', JList [JStr ''document'']),
             (''msg'', JStr ''Input should be a valid dictionary''), (''input'', JList [])] \<in> set details"
    using validation_failure_reported [OF insert_registry_lookup mem_d,
        of "[(''collection'', JStr ''users''), (''document'', JList [])]"
           "Some [(''collection'', JStr ''users''), (''document'', JList [])]" always_connects fresh_server]
    by (simp add: InsertArgs_def lookup_field_def)
  show ?thesis using one two three by blast
qed

subsection \<open>Bulk insert\<close>

text \<open>
  The loop of \<open>handle_bulk_insert\<close>, one iteration at a time; it leaves
  \<open>total_documents\<close> alone, and \<open>inserted_count + error_count\<close> stays within the
  number of documents as long as \<open>insert_many\<close> returns no more results than it was
  given documents.
\<close>

lemma bulk_insert_loop_done:
  "\<not> (0 < bs \<and> i < length docs) \<Longrightarrow> bulk_insert_loop ins docs bs oe i res = res"
  by (subst bulk_insert_loop.simps) auto

lemma bulk_insert_loop_inserted:
  "0 < bs \<and> i < length docs \<Longrightarrow> ins i (take bs (drop i docs)) = Inr rs \<Longrightarrow>
   bulk_insert_loop ins docs bs oe i res =
     bulk_insert_loop ins docs bs oe (i + bs)
       (res\<lparr>inserted_count := inserted_count res + length rs,
            inserted_ids := inserted_ids res @
              map (\<lambda>r. case r of JObj d \<Rightarrow> dict_get d ''_id'' | _ \<Rightarrow> JNull)
                (filter (\<lambda>r. case r of JObj d \<Rightarrow> True | _ \<Rightarrow> False) rs)\<rparr>)"
  by (subst bulk_insert_loop.simps) (simp add: Let_def)

lemma bulk_insert_loop_failed_stop:
  "0 < bs \<and> i < length docs \<Longrightarrow> ins i (take bs (drop i docs)) = Inl e \<Longrightarrow> oe = ''stop'' \<Longrightarrow>
   bulk_insert_loop ins docs bs oe i res =
     res\<lparr>error_count := error_count res + length (take bs (drop i docs)),
         errors := errors res @
           [\<lparr>err_batch_start = i, err_batch_size = length (take bs (drop i docs)), err_message = msg e\<rparr>]\<rparr>"
  by (subst bulk_insert_loop.simps) (simp add: Let_def)

lemma bulk_insert_loop_failed_continue:
  "0 < bs \<and> i < length docs \<Longrightarrow> ins i (take bs (drop i docs)) = Inl e \<Longrightarrow> oe \<noteq> ''stop'' \<Longrightarrow>
   bulk_insert_loop ins docs bs oe i res =
     bulk_insert_loop ins docs bs oe (i + bs)
       (res\<lparr>error_count := error_count res + length (take bs (drop i docs)),
            errors := errors res @
              [\<lparr>err_batch_start = i, err_batch_size = length (take bs (drop i docs)), err_message = msg e\<rparr>]\<rparr>)"
  by (subst bulk_insert_loop.simps) (simp add: Let_def)

lemma bulk_insert_loop_total:
  "total_documents (bulk_insert_loop ins docs bs oe i res) = total_documents res"
proof (induction ins docs bs oe i res rule: bulk_insert_loop.induct)
  case (1 ins docs bs oe i res)
  show ?case
  proof (cases "0 < bs \<and> i < length docs")
    case False
    show ?thesis by (simp add: bulk_insert_loop_done [OF False])
  next
    case True
    show ?thesis
    proof (cases "ins i (take bs (drop i docs))")
      case (Inr rs)
      show ?thesis
        using "1.IH"(2) [OF True refl Inr]
        by (simp add: bulk_insert_loop_inserted [where ins = ins and i = i and bs = bs and docs = docs, OF True Inr])
    next
      case (Inl e)
      show ?thesis
      proof (cases "oe = ''stop''")
        case stop: True
        show ?thesis by (simp add: bulk_insert_loop_failed_stop [where ins = ins and i = i and bs = bs and docs = docs, OF True Inl stop])
      next
        case False
        show ?thesis
          using "1.IH"(1) [OF True refl Inl refl False]
          by (simp add: bulk_insert_loop_failed_continue [where ins = ins and i = i and bs = bs and docs = docs, OF True Inl False])
      qed
    qed
  qed
qed

lemma bulk_insert_loop_bound:
  assumes "\<forall>i b rs. ins i b = Inr rs \<longrightarrow> length rs \<le> length b"
    and "inserted_count res + error_count res \<le> min i (length docs)"
  shows "inserted_count (bulk_insert_loop ins docs bs oe i res)
         + error_count (bulk_insert_loop ins docs bs oe i res) \<le> length docs"
  using assms
proof (induction ins docs bs oe i res rule: bulk_insert_loop.induct)
  case (1 ins docs bs oe i res)
  show ?case
  proof (cases "0 < bs \<and> i < length docs")
    case False
    show ?thesis using "1.prems"(2) by (simp add: bulk_insert_loop_done [OF False])
  next
    case True
    let ?batch = "take bs (drop i docs)"
    show ?thesis
    proof (cases "ins i ?batch")
      case (Inr rs)
      let ?res = "res\<lparr>inserted_count := inserted_count res + length rs,
                       inserted_ids := inserted_ids res @
                         map (\<lambda>r. case r of JObj d \<Rightarrow> dict_get d ''_id'' | _ \<Rightarrow> JNull)
                           (filter (\<lambda>r. case r of JObj d \<Rightarrow> True | _ \<Rightarrow> False) rs)\<rparr>"
      have "length rs \<le> length ?batch" using "1.prems"(1) Inr by blast
      then have inv: "inserted_count ?res + error_count ?res \<le> min (i + bs) (length docs)"
        using "1.prems"(2) True by auto
      show ?thesis
        using "1.IH"(2) [OF True refl Inr "1.prems"(1) inv]
        by (simp only: bulk_insert_loop_inserted [where ins = ins and i = i and bs = bs and docs = docs, OF True Inr])
    next
      case (Inl e)
      let ?res = "res\<lparr>error_count := error_count res + length ?batch,
                       errors := errors res @
                         [\<lparr>err_batch_start = i, err_batch_size = length ?batch, err_message = msg e\<rparr>]\<rparr>"
      have inv: "inserted_count ?res + error_count ?res \<le> min (i + bs) (length docs)"
        using "1.prems"(2) True by auto
      show ?thesis
      proof (cases "oe = ''stop''")
        case stop: True
        have "inserted_count ?res + error_count ?res \<le> length docs" using inv by simp
        then show ?thesis
          by (simp only: bulk_insert_loop_failed_stop [where ins = ins and i = i and bs = bs and docs = docs, OF True Inl stop])
      next
        case False
        show ?thesis
          using "1.IH"(1) [OF True refl Inl refl False "1.prems"(1) inv]
          by (simp only: bulk_insert_loop_failed_continue [where ins = ins and i = i and bs = bs and docs = docs, OF True Inl False])
      qed
    qed
  qed
qed

lemma handle_bulk_insert_no_collection:
  "arg_collection args = None \<Longrightarrow> handle_bulk_insert ins args = Inl (KeyError ''collection'')"
  by (simp add: handle_bulk_insert_def)

lemma handle_bulk_insert_zero_step:
  "arg_collection args = Some c \<Longrightarrow> arg_batch_size args = Some 0 \<Longrightarrow>
   handle_bulk_insert ins args = Inl (ValueError ''range() arg 3 must not be zero'')"
  by (simp add: handle_bulk_insert_def)

lemma handle_bulk_insert_returns:
  assumes "arg_collection args = Some c" and "arg_batch_size args \<noteq> Some 0"
  shows "\<exists>res. handle_bulk_insert ins args = Inr res
          \<and> total_documents res = length (case arg_documents args of None \<Rightarrow> [] | Some ds \<Rightarrow> ds)
          \<and> (total_documents res = 0 \<longrightarrow> success_rate res = JInt 0)
          \<and> (total_documents res \<noteq> 0 \<longrightarrow>
               success_rate res = JFloat (Fract (int (inserted_count res)) (int (total_documents res))))
          \<and> ((\<forall>i b rs. ins c i b = Inr rs \<longrightarrow> length rs \<le> length b) \<longrightarrow>
               inserted_count res + error_count res \<le> total_documents res)"
proof -
  define docs where "docs = (case arg_documents args of None \<Rightarrow> [] | Some ds \<Rightarrow> ds)"
  define bs where "bs = (case arg_batch_size args of None \<Rightarrow> 1000 | Some b \<Rightarrow> b)"
  define oe where "oe = (case arg_on_error args of None \<Rightarrow> ''stop'' | Some s \<Rightarrow> s)"
  define r0 where "r0 = \<lparr>total_documents = length docs, inserted_count = 0, error_count = 0,
                          errors = [], inserted_ids = [], success_rate = JNull\<rparr>"
  define r1 where "r1 = (if bs < 0 then r0 else bulk_insert_loop (ins c) docs (nat bs) oe 0 r0)"
  define res where "res = r1\<lparr>success_rate :=
                      (if total_documents r1 \<noteq> 0
                       then JFloat (Fract (int (inserted_count r1)) (int (total_documents r1)))
                       else JInt 0)\<rparr>"
  have nz: "(case arg_batch_size args of None \<Rightarrow> 1000 | Some b \<Rightarrow> b) \<noteq> 0"
    using assms(2) by (cases "arg_batch_size args") simp_all
  have run: "handle_bulk_insert ins args = Inr res"
    unfolding handle_bulk_insert_def Let_def res_def r1_def r0_def oe_def bs_def docs_def
    using assms(1) nz by (simp add: truediv_def)
  have t0: "total_documents r0 = length docs" by (simp add: r0_def)
  have total: "total_documents r1 = length docs"
  proof (cases "bs < 0")
    case True
    then show ?thesis by (simp add: r1_def t0)
  next
    case False
    then show ?thesis by (simp add: r1_def bulk_insert_loop_total t0)
  qed
  have bound: "(\<forall>i b rs. ins c i b = Inr rs \<longrightarrow> length rs \<le> length b) \<longrightarrow>
               inserted_count r1 + error_count r1 \<le> length docs"
  proof
    assume contract: "\<forall>i b rs. ins c i b = Inr rs \<longrightarrow> length rs \<le> length b"
    have start: "inserted_count r0 + error_count r0 \<le> min 0 (length docs)"
      by (simp add: r0_def)
    show "inserted_count r1 + error_count r1 \<le> length docs"
    proof (cases "bs < 0")
      case True
      then show ?thesis by (simp add: r1_def) (simp add: r0_def)
    next
      case False
      have "inserted_count (bulk_insert_loop (ins c) docs (nat bs) oe 0 r0)
            + error_count (bulk_insert_loop (ins c) docs (nat bs) oe 0 r0) \<le> length docs"
        using contract start by (rule bulk_insert_loop_bound)
      with False show ?thesis by (simp add: r1_def)
    qed
  qed
  have r_total: "total_documents res = total_documents r1"
    and r_ins: "inserted_count res = inserted_count r1"
    and r_err: "error_count res = error_count r1"
    and r_rate: "success_rate res = (if total_documents r1 \<noteq> 0
                       then JFloat (Fract (int (inserted_count r1)) (int (total_documents r1)))
                       else JInt 0)"
    by (simp_all add: res_def)
  have props: "total_documents res = length docs
          \<and> (total_documents res = 0 \<longrightarrow> success_rate res = JInt 0)
          \<and> (total_documents res \<noteq> 0 \<longrightarrow>
               success_rate res = JFloat (Fract (int (inserted_count res)) (int (total_documents res))))
          \<and> ((\<forall>i b rs. ins c i b = Inr rs \<longrightarrow> length rs \<le> length b) \<longrightarrow>
               inserted_count res + error_count res \<le> total_documents res)"
    using total bound by (simp add: r_total r_ins r_err r_rate)
  show ?thesis
    using run props unfolding docs_def by (intro exI [of _ res]) auto
qed

text \<open>A run on two documents in one batch, with a driver that stores every document.\<close>

lemma insert_all_contract: "\<forall>i b rs. insert_all c i b = Inr rs \<longrightarrow> length rs \<le> length b"
  by (auto simp: insert_all_def)

lemma single_batch_loop:
  assumes "docs \<noteq> []" and "length docs \<le> bs" and "ins 0 docs = Inr rs"
  shows "bulk_insert_loop ins docs bs oe 0 r0 =
     r0\<lparr>inserted_count := inserted_count r0 + length rs,
        inserted_ids := inserted_ids r0 @
          map (\<lambda>r. case r of JObj d \<Rightarrow> dict_get d ''_id'' | _ \<Rightarrow> JNull)
            (filter (\<lambda>r. case r of JObj d \<Rightarrow> True | _ \<Rightarrow> False) rs)\<rparr>"
proof -
  have go: "0 < bs \<and> 0 < length docs" using assms(1,2) by (cases docs) auto
  have step: "ins 0 (take bs (drop 0 docs)) = Inr rs" using assms(2,3) by simp
  have stop: "\<not> (0 < bs \<and> 0 + bs < length docs)" using assms(2) by simp
  show ?thesis
    by (simp only: bulk_insert_loop_inserted [where ins = ins and i = 0 and bs = bs and docs = docs, OF go step]
        bulk_insert_loop_done [OF stop])
qed

lemma two_documents_run:
  "handle_bulk_insert insert_all
     \<lparr>arg_collection = Some ''users'',
      arg_documents = Some [JObj [(''_key'', JStr ''1'')], JObj [(''_key'', JStr ''2'')]],
      arg_batch_size = Some 2, arg_on_error = None\<rparr>
   = Inr \<lparr>total_documents = 2, inserted_count = 2, error_count = 0, errors = [],
          inserted_ids = [JStr ''users'', JStr ''users''], success_rate = JFloat 1\<rparr>"
proof -
  let ?docs = "[JObj [(''_key'', JStr ''1'')], JObj [(''_key'', JStr ''2'')]]"
  let ?rs = "[JObj [(''_id'', JStr ''users'')], JObj [(''_id'', JStr ''users'')]]"
  let ?r0 = "\<lparr>total_documents = length ?docs, inserted_count = 0, error_count = 0,
              errors = [], inserted_ids = [], success_rate = JNull\<rparr>"
  have ne: "?docs \<noteq> []" by simp
  have step: "insert_all ''users'' 0 ?docs = Inr ?rs" by (simp add: insert_all_def)
  have n: "length ?docs \<le> nat 2" by simp
  have loop: "bulk_insert_loop (insert_all ''users'') ?docs (nat 2) ''stop'' 0 ?r0
     = \<lparr>total_documents = 2, inserted_count = 2, error_count = 0,
        errors = [], inserted_ids = [JStr ''users'', JStr ''users''], success_rate = JNull\<rparr>"
    by (subst single_batch_loop [where ins = "insert_all ''users''" and docs = ?docs and rs = ?rs, OF ne n step])
       (simp add: dict_get_def)
  have rate: "Fract 2 2 = (1::rat)" by (simp add: One_rat_def eq_rat)
  show ?thesis
    unfolding handle_bulk_insert_def Let_def
    by (simp only: bulk_insert_args.simps option.case loop) (simp add: rate truediv_def)
qed

text \<open>A run on one document with a driver that answers two results for it.\<close>

lemma two_per_doc_run:
  "handle_bulk_insert two_per_doc
     \<lparr>arg_collection = Some ''users'', arg_documents = Some [JObj [(''_key'', JStr ''1'')]],
      arg_batch_size = None, arg_on_error = None\<rparr>
   = Inr \<lparr>total_documents = 1, inserted_count = 2, error_count = 0, errors = [],
          inserted_ids = [JStr ''users'', JStr ''users''], success_rate = JFloat 2\<rparr>"
proof -
  let ?docs = "[JObj [(''_key'', JStr ''1'')]]"
  let ?rs = "[JObj [(''_id'', JStr ''users'')], JObj [(''_id'', JStr ''users'')]]"
  let ?r0 = "\<lparr>total_documents = length ?docs, inserted_count = 0, error_count = 0,
              errors = [], inserted_ids = [], success_rate = JNull\<rparr>"
  have ne: "?docs \<noteq> []" by simp
  have step: "two_per_doc ''users'' 0 ?docs = Inr ?rs" by (simp add: two_per_doc_def)
  have n: "length ?docs \<le> nat 1000" by simp
  have loop: "bulk_insert_loop (two_per_doc ''users'') ?docs (nat 1000) ''stop'' 0 ?r0
     = \<lparr>total_documents = 1, inserted_count = 2, error_count = 0,
        errors = [], inserted_ids = [JStr ''users'', JStr ''users''], success_rate = JNull\<rparr>"
    by (subst single_batch_loop [where ins = "two_per_doc ''users''" and docs = ?docs and rs = ?rs, OF ne n step])
       (simp add: dict_get_def)
  have rate: "Fract 2 1 = (2::rat)" by (simp add: Fract_of_int_quotient)
  show ?thesis
    unfolding handle_bulk_insert_def Let_def
    by (simp only: bulk_insert_args.simps option.case loop) (simp add: rate truediv_def)
qed

text \<open>
  Claim C10, as stated, fails in two places. Not every input gets a result with
  \<open>total_documents\<close> and \<open>success_rate\<close>: with \<open>batch_size\<close> 0, which \<open>BulkInsertArgs\<close>
  accepts, \<open>range(0, len(documents), batch_size)\<close> raises \<open>ValueError\<close> even for the
  empty list of documents, and the decorated handler answers with the error dictionary
  below; without the key \<open>collection\<close>, \<open>args["collection"]\<close> raises \<open>KeyError\<close>. And \<open>inserted_count\<close> adds \<open>len(batch_result)\<close>, whatever the length of the
  batch: with a driver that answers two results for the one document given,
  \<open>inserted_count + error_count\<close> is 2 and \<open>total_documents\<close> is 1.
\<close>

theorem bulk_insert_counterexample:
  "handle_bulk_insert insert_all
     \<lparr>arg_collection = Some ''users'', arg_documents = Some [], arg_batch_size = Some 0, arg_on_error = None\<rparr>
     = Inl (ValueError ''range() arg 3 must not be zero'')
   \<and> error_result (ValueError ''range() arg 3 must not be zero'')
     = JObj [(''error'', JStr ''Operation failed: range() arg 3 must not be zero''),
             (''type'', JStr ''ValueError'')]
   \<and> handle_bulk_insert two_per_doc
     \<lparr>arg_collection = Some ''users'', arg_documents = Some [JObj [(''_key'', JStr ''1'')]],
      arg_batch_size = None, arg_on_error = None\<rparr>
     = Inr \<lparr>total_documents = 1, inserted_count = 2, error_count = 0, errors = [],
            inserted_ids = [JStr ''users'', JStr ''users''], success_rate = JFloat 2\<rparr>
   \<and> handle_bulk_insert insert_all
     \<lparr>arg_collection = None, arg_documents = Some [], arg_batch_size = None, arg_on_error = None\<rparr>
     = Inl (KeyError ''collection'')"
  by (simp add: handle_bulk_insert_zero_step handle_bulk_insert_no_collection error_result_def
      isinstance_def ValueError_def two_per_doc_run)

text \<open>
  Claim C10, amended. On no input does \<open>handle_bulk_insert\<close> raise
  \<open>ZeroDivisionError\<close>: the division is made only for a total that is not 0. When the arguments name a collection and \<open>batch_size\<close> is not
  0, it returns a result whose \<open>total_documents\<close> is the number of documents given
  (0 when the key is missing), whose \<open>success_rate\<close> is the integer 0 when there are no
  documents and the quotient \<open>inserted_count / total_documents\<close> otherwise (the exact
  quotient here, where Python rounds to a float), and in which
  \<open>inserted_count + error_count\<close> does not exceed \<open>total_documents\<close> provided that
  every successful \<open>insert_many\<close> returns at most one result per document of its batch.
\<close>

theorem bulk_insert_success_rate:
  "(\<forall>e. handle_bulk_insert ins args = Inl e \<longrightarrow> cls e \<noteq> ''ZeroDivisionError'')
   \<and> (arg_collection args = Some c \<and> arg_batch_size args \<noteq> Some 0 \<longrightarrow>
       (\<exists>res. handle_bulk_insert ins args = Inr res
          \<and> total_documents res = length (case arg_documents args of None \<Rightarrow> [] | Some ds \<Rightarrow> ds)
          \<and> (total_documents res = 0 \<longrightarrow> success_rate res = JInt 0)
          \<and> (total_documents res \<noteq> 0 \<longrightarrow>
               success_rate res = JFloat (Fract (int (inserted_count res)) (int (total_documents res))))
          \<and> ((\<forall>i b rs. ins c i b = Inr rs \<longrightarrow> length rs \<le> length b) \<longrightarrow>
               inserted_count res + error_count res \<le> total_documents res)))"
proof (intro conjI allI impI)
  fix e assume raised: "handle_bulk_insert ins args = Inl e"
  show "cls e \<noteq> ''ZeroDivisionError''"
  proof (cases "arg_collection args")
    case None
    then have "e = KeyError ''collection''"
      using raised by (simp add: handle_bulk_insert_no_collection)
    then show ?thesis by (simp add: KeyError_def)
  next
    case (Some c')
    show ?thesis
    proof (cases "arg_batch_size args = Some 0")
      case True
      then have "e = ValueError ''range() arg 3 must not be zero''"
        using raised Some by (simp add: handle_bulk_insert_zero_step)
      then show ?thesis by (simp add: ValueError_def)
    next
      case False
      obtain res where "handle_bulk_insert ins args = Inr res"
        using handle_bulk_insert_returns [OF Some False] by blast
      with raised show ?thesis by simp
    qed
  qed
next
  assume "arg_collection args = Some c \<and> arg_batch_size args \<noteq> Some 0"
  then show "\<exists>res. handle_bulk_insert ins args = Inr res
          \<and> total_documents res = length (case arg_documents args of None \<Rightarrow> [] | Some ds \<Rightarrow> ds)
          \<and> (total_documents res = 0 \<longrightarrow> success_rate res = JInt 0)
          \<and> (total_documents res \<noteq> 0 \<longrightarrow>
               success_rate res = JFloat (Fract (int (inserted_count res)) (int (total_documents res))))
          \<and> ((\<forall>i b rs. ins c i b = Inr rs \<longrightarrow> length rs \<le> length b) \<longrightarrow>
               inserted_count res + error_count res \<le> total_documents res)"
    using handle_bulk_insert_returns [of args c ins] by simp
qed

theorem bulk_insert_success_rate_witness:
  "(\<exists>res. handle_bulk_insert insert_all
       \<lparr>arg_collection = Some ''users'',
        arg_documents = Some [JObj [(''_key'', JStr ''1'')], JObj [(''_key'', JStr ''2'')]],
        arg_batch_size = Some 2, arg_on_error = None\<rparr> = Inr res
      \<and> total_documents res = 2 \<and> inserted_count res = 2 \<and> error_count res = 0
      \<and> success_rate res = JFloat (Fract 2 2)
      \<and> inserted_count res + error_count res \<le> total_documents res)
   \<and> (\<exists>res. handle_bulk_insert insert_all
       \<lparr>arg_collection = Some ''users'', arg_documents = Some [],
        arg_batch_size = None, arg_on_error = None\<rparr> = Inr res
      \<and> total_documents res = 0 \<and> success_rate res = JInt 0)"
proof -
  let ?two = "\<lparr>arg_collection = Some ''users'',
        arg_documents = Some [JObj [(''_key'', JStr ''1'')], JObj [(''_key'', JStr ''2'')]],
        arg_batch_size = Some 2, arg_on_error = None\<rparr>"
  let ?none = "\<lparr>arg_collection = Some ''users'', arg_documents = Some [],
        arg_batch_size = None, arg_on_error = None\<rparr>"
  have pre2: "arg_collection ?two = Some ''users'' \<and> arg_batch_size ?two \<noteq> Some 0" by simp
  have pre0: "arg_collection ?none = Some ''users'' \<and> arg_batch_size ?none \<noteq> Some 0" by simp
  note two = bulk_insert_success_rate [of insert_all ?two "''users''", THEN conjunct2, THEN mp, OF pre2]
  note none = bulk_insert_success_rate [of insert_all ?none "''users''", THEN conjunct2, THEN mp, OF pre0]
  from two obtain res where run: "handle_bulk_insert insert_all ?two = Inr res"
    and total: "total_documents res = length (case arg_documents ?two of None \<Rightarrow> [] | Some ds \<Rightarrow> ds)"
    and rate: "total_documents res \<noteq> 0 \<longrightarrow>
               success_rate res = JFloat (Fract (int (inserted_count res)) (int (total_documents res)))"
    and bound: "(\<forall>i b rs. insert_all ''users'' i b = Inr rs \<longrightarrow> length rs \<le> length b) \<longrightarrow>
               inserted_count res + error_count res \<le> total_documents res"
    by (elim exE conjE)
  have t2: "total_documents res = 2" using total by simp
  have le: "inserted_count res + error_count res \<le> total_documents res"
    using bound insert_all_contract [of "''users''"] by (rule mp)
  have "res = \<lparr>total_documents = 2, inserted_count = 2, error_count = 0, errors = [],
          inserted_ids = [JStr ''users'', JStr ''users''], success_rate = JFloat 1\<rparr>"
    using run by (simp add: two_documents_run)
  then have counts: "inserted_count res = 2 \<and> error_count res = 0"
    by simp
  have r2: "success_rate res = JFloat (Fract 2 2)"
    using rate t2 counts by simp
  have first: "\<exists>res. handle_bulk_insert insert_all ?two = Inr res
      \<and> total_documents res = 2 \<and> inserted_count res = 2 \<and> error_count res = 0
      \<and> success_rate res = JFloat (Fract 2 2)
      \<and> inserted_count res + error_count res \<le> total_documents res"
    using run t2 counts r2 le by (intro exI [of _ res]) simp
  from none obtain res0 where run0: "handle_bulk_insert insert_all ?none = Inr res0"
    and total0: "total_documents res0 = length (case arg_documents ?none of None \<Rightarrow> [] | Some ds \<Rightarrow> ds)"
    and rate0: "total_documents res0 = 0 \<longrightarrow> success_rate res0 = JInt 0"
    by (elim exE conjE)
  have t0: "total_documents res0 = 0" using total0 by simp
  have second: "\<exists>res. handle_bulk_insert insert_all ?none = Inr res
      \<and> total_documents res = 0 \<and> success_rate res = JInt 0"
    using run0 t0 rate0 by (intro exI [of _ res0]) simp
  show ?thesis using first second by (rule conjI)
qed

end
